theory Spec2Isabelle
  imports Complex_Main
begin

section \<open>Data model (types.ts and the entity objects of Visualizer.tsx)\<close>

text \<open>
  JavaScript numbers are modelled as reals (an idealisation of IEEE doubles: no rounding,
  no NaN); \<open>Date.now()\<close> is an integer number of milliseconds; canvas dimensions are
  naturals. \<open>Math.random()\<close> is an explicit source: a tick receives a function
  \<open>rnd\<close> whose value at \<open>k\<close> is the result of the \<open>k\<close>-th call made during that tick.
\<close>

datatype AppMode = JELLYFISH | SNOW | RAIN

datatype error = TypeError

record Landmark =
  lm_x :: real
  lm_y :: real
  lm_z :: real

record HandData =
  hd_x :: real
  hd_y :: real
  isPinching :: bool
  pinchDistance :: real
  isPresent :: bool
  landmarks :: "Landmark list option"

record Bubble =
  b_x :: real
  b_y :: real
  b_size :: real
  b_speed :: real
  b_alpha :: real
  b_life :: real

datatype JellyState = FOLLOWING | FREE

record Jellyfish =
  j_x :: real
  j_y :: real
  j_vx :: real
  j_vy :: real
  j_scale :: real
  j_phase :: real
  j_state :: JellyState
  j_bubbles :: "Bubble list"

record Snowflake =
  f_x :: real
  f_y :: real
  f_vx :: real
  f_vy :: real
  f_size :: real
  f_spin :: real
  f_spinSpeed :: real
  f_opacity :: real
  f_isParticle :: bool

record RainDrop =
  d_x :: real
  d_y :: real
  d_len :: real
  d_speed :: real

record Ripple =
  r_x :: real
  r_y :: real
  r_r :: real
  r_maxR :: real
  r_alpha :: real
  r_isHand :: bool

record Splash =
  s_x :: real
  s_y :: real
  s_vx :: real
  s_vy :: real
  s_life :: real

text \<open>\<open>particlesRef\<close> is one untyped array shared by the three simulations.\<close>

datatype Particle = Jelly Jellyfish | Flake Snowflake | Drop RainDrop

record Visualizer =
  particles :: "Particle list"
  ripples :: "Ripple list"
  splashes :: "Splash list"
  snowGround :: "real list option"
  wasOpen :: bool

record App =
  mode :: AppMode
  handData :: HandData
  hoveredTab :: "AppMode option"
  lastVideoTime :: real
  lastSwitchTime :: int
  visualizer :: Visualizer

record Frame =
  videoReady :: bool
  videoTime :: real
  detections :: "Landmark list list"
  dateNow :: int


section \<open>App.tsx: mode controller and detection loop\<close>

definition TABS :: "AppMode list" where
  "TABS = [JELLYFISH, SNOW, RAIN]"

definition initialVisualizer :: Visualizer where
  "initialVisualizer =
     \<lparr>particles = [], ripples = [], splashes = [], snowGround = None, wasOpen = False\<rparr>"

definition initialApp :: App where
  "initialApp =
     \<lparr>mode = JELLYFISH,
      handData = \<lparr>hd_x = 0.5, hd_y = 0.5, isPinching = False, pinchDistance = 0,
                  isPresent = False, landmarks = None\<rparr>,
      hoveredTab = None,
      lastVideoTime = - 1,
      lastSwitchTime = 0,
      visualizer = initialVisualizer\<rparr>"

text \<open>The body of the Visualizer effect that depends on \<open>[mode]\<close>.\<close>

definition resetSystems :: "Visualizer \<Rightarrow> Visualizer" where
  "resetSystems v =
     v\<lparr>particles := [], ripples := [], splashes := [], wasOpen := False, snowGround := None\<rparr>"

text \<open>
  \<open>setMode\<close> together with the effect it schedules: React runs an effect with
  dependency \<open>[mode]\<close> only when the value of \<open>mode\<close> has changed.
\<close>

definition setMode :: "AppMode \<Rightarrow> App \<Rightarrow> App" where
  "setMode m st =
     (if m = mode st then st
      else st\<lparr>mode := m, visualizer := resetSystems (visualizer st)\<rparr>)"

definition nextMode :: "AppMode \<Rightarrow> AppMode" where
  "nextMode prevMode =
     (if prevMode = JELLYFISH then SNOW
      else if prevMode = SNOW then RAIN
      else JELLYFISH)"

definition centroidX :: "Landmark list \<Rightarrow> real" where
  "centroidX lms =
     (let keyPoints = map (\<lambda>i. lms ! i) [0, 5, 9, 13, 17];
          sumX = fold (\<lambda>p s. s + lm_x p) keyPoints 0
      in 1 - sumX / real (length keyPoints))"

definition centroidY :: "Landmark list \<Rightarrow> real" where
  "centroidY lms =
     (let keyPoints = map (\<lambda>i. lms ! i) [0, 5, 9, 13, 17];
          sumY = fold (\<lambda>p s. s + lm_y p) keyPoints 0
      in sumY / real (length keyPoints))"

definition pinchDistanceOf :: "Landmark list \<Rightarrow> real" where
  "pinchDistanceOf lms =
     (let thumbTip = lms ! 4;
          indexTip = lms ! 8;
          pinchDx = lm_x indexTip - lm_x thumbTip;
          pinchDy = lm_y indexTip - lm_y thumbTip
      in sqrt (pinchDx * pinchDx + pinchDy * pinchDy))"

definition isOkGesture :: "Landmark list \<Rightarrow> bool" where
  "isOkGesture lms =
     (let wrist = lms ! 0;
          middleTip = lms ! 12;
          ringTip = lms ! 16;
          pinkyTip = lms ! 20;
          isPinching = (pinchDistanceOf lms < 0.06);
          middleDist = sqrt ((lm_x middleTip - lm_x wrist)\<^sup>2 + (lm_y middleTip - lm_y wrist)\<^sup>2);
          ringDist = sqrt ((lm_x ringTip - lm_x wrist)\<^sup>2 + (lm_y ringTip - lm_y wrist)\<^sup>2);
          pinkyDist = sqrt ((lm_x pinkyTip - lm_x wrist)\<^sup>2 + (lm_y pinkyTip - lm_y wrist)\<^sup>2)
      in isPinching \<and> middleDist > 0.25 \<and> ringDist > 0.25 \<and> pinkyDist > 0.2)"

definition handleTabHover :: "HandData \<Rightarrow> AppMode option" where
  "handleTabHover data =
     (if hd_y data < 0.20 \<and> isPresent data then
        (let tabWidth = 1 / 3 in
         if hd_x data < tabWidth then Some (TABS ! 0)
         else if hd_x data < tabWidth * 2 then Some (TABS ! 1)
         else Some (TABS ! 2))
      else None)"

text \<open>
  The branch of the loop taken when a hand was detected. Reading a landmark beyond the
  end of the array gives \<open>undefined\<close>, whose field access throws before any state is
  written; \<open>loop\<close> below checks the length first.
\<close>

definition detectHand :: "Landmark list \<Rightarrow> int \<Rightarrow> App \<Rightarrow> App" where
  "detectHand lms now st =
     (let pinchDistance = pinchDistanceOf lms;
          isPinching = (pinchDistance < 0.06);
          st1 = (if isOkGesture lms \<and> now - lastSwitchTime st > 1500
                 then (setMode (nextMode (mode st)) st)\<lparr>lastSwitchTime := now\<rparr>
                 else st);
          newHandData = \<lparr>hd_x = centroidX lms, hd_y = centroidY lms,
                         isPinching = isPinching, pinchDistance = pinchDistance,
                         isPresent = True, landmarks = Some lms\<rparr>
      in st1\<lparr>handData := newHandData, hoveredTab := handleTabHover newHandData\<rparr>)"

definition loop :: "Frame \<Rightarrow> App \<Rightarrow> error + App" where
  "loop f st =
     (if \<not> videoReady f then Inr st
      else if videoTime f = lastVideoTime st then Inr st
      else
        (let st1 = st\<lparr>lastVideoTime := videoTime f\<rparr> in
         case detections f of
           [] \<Rightarrow>
             Inr (st1\<lparr>handData := (handData st1)\<lparr>isPresent := False, landmarks := None\<rparr>,
                      hoveredTab := None\<rparr>)
         | lms # _ \<Rightarrow>
             if length lms < 21 then Inl TypeError
             else Inr (detectHand lms (dateNow f) st1)))"

text \<open>Successive iterations of the loop; an exception ends it.\<close>

fun loops :: "Frame list \<Rightarrow> App \<Rightarrow> error + App" where
  "loops [] st = Inr st"
| "loops (f # fs) st = (case loop f st of Inl e \<Rightarrow> Inl e | Inr st' \<Rightarrow> loops fs st')"

text \<open>A frame on which a hand showing the OK sign is detected.\<close>

definition okFrame :: "Frame \<Rightarrow> bool" where
  "okFrame f =
     (videoReady f \<and>
      (case detections f of [] \<Rightarrow> False | lms # _ \<Rightarrow> 21 \<le> length lms \<and> isOkGesture lms))"

text \<open>Concrete inputs used to exercise the definitions.\<close>

definition pt :: "real \<Rightarrow> real \<Rightarrow> Landmark" where
  "pt a b = \<lparr>lm_x = a, lm_y = b, lm_z = 0\<rparr>"

definition okHand :: "Landmark list" where
  "okHand =
     (replicate 21 (pt 0.5 0.9))
       [4 := pt 0.5 0.6, 8 := pt 0.5 0.6, 12 := pt 0.5 0.5, 16 := pt 0.5 0.55, 20 := pt 0.5 0.65]"

definition okFrameAt :: "real \<Rightarrow> int \<Rightarrow> Frame" where
  "okFrameAt v t = \<lparr>videoReady = True, videoTime = v, detections = [okHand], dateNow = t\<rparr>"

text \<open>A state in RAIN mode with live entities in every collection.\<close>

definition busyVisualizer :: Visualizer where
  "busyVisualizer =
     \<lparr>particles = [Drop \<lparr>d_x = 10, d_y = 20, d_len = 25, d_speed = 25\<rparr>],
      ripples = [\<lparr>r_x = 10, r_y = 500, r_r = 3, r_maxR = 30, r_alpha = 0.94, r_isHand = False\<rparr>],
      splashes = [\<lparr>s_x = 10, s_y = 480, s_vx = 1, s_vy = - 2, s_life = 0.9\<rparr>],
      snowGround = Some [600, 598, 597],
      wasOpen = True\<rparr>"

definition busyApp :: App where
  "busyApp = initialApp\<lparr>mode := RAIN, visualizer := busyVisualizer, lastSwitchTime := 1700000000000\<rparr>"

text \<open>
  The distance of two landmarks as points of space, with all three coordinates, as the
  specification words it; it is only compared with what the code computes.
\<close>

definition landmarkDistance3 :: "Landmark \<Rightarrow> Landmark \<Rightarrow> real" where
  "landmarkDistance3 a b =
     sqrt ((lm_x a - lm_x b)\<^sup>2 + (lm_y a - lm_y b)\<^sup>2 + (lm_z a - lm_z b)\<^sup>2)"

text \<open>
  Hands whose thumb tip (4) and index tip (8) differ only in depth, are 0.05 apart in
  the image plane, and are 0.1 apart in the image plane.
\<close>

definition pt3 :: "real \<Rightarrow> real \<Rightarrow> real \<Rightarrow> Landmark" where
  "pt3 a b c = \<lparr>lm_x = a, lm_y = b, lm_z = c\<rparr>"

definition depthHand :: "Landmark list" where
  "depthHand = (replicate 21 (pt 0.5 0.9)) [4 := pt3 0.5 0.6 0, 8 := pt3 0.5 0.6 0.1]"

definition nearHand :: "Landmark list" where
  "nearHand = (replicate 21 (pt 0.5 0.9)) [4 := pt3 0.5 0.6 0.1, 8 := pt3 0.53 0.64 (- 0.2)]"

definition apartHand :: "Landmark list" where
  "apartHand = (replicate 21 (pt 0.5 0.9)) [4 := pt3 0.5 0.6 0.1, 8 := pt3 0.56 0.68 0.1]"

definition handFrame :: "Landmark list \<Rightarrow> Frame" where
  "handFrame lms =
     \<lparr>videoReady = True, videoTime = 0, detections = [lms], dateNow = 1700000000000\<rparr>"

definition emptyFrameAt :: "real \<Rightarrow> int \<Rightarrow> Frame" where
  "emptyFrameAt v t = \<lparr>videoReady = True, videoTime = v, detections = [], dateNow = t\<rparr>"


section \<open>Visualizer.tsx: inputs of a render tick\<close>

text \<open>
  What one call of a render function reads from outside: the canvas size, the current
  hand pose, \<open>Date.now()\<close> and the results of its calls of \<open>Math.random()\<close>.
\<close>

record Tick =
  canvasWidth :: nat
  canvasHeight :: nat
  hand :: HandData
  tickNow :: int
  rnd :: "nat \<Rightarrow> real"

definition isOpenHand :: "HandData \<Rightarrow> bool" where
  "isOpenHand hdata =
     (let isHandInHud = (hd_y hdata < 0.2)
      in isPresent hdata \<and> \<not> isPinching hdata \<and> \<not> isHandInHud)"

definition rndConst :: "real \<Rightarrow> nat \<Rightarrow> real" where
  "rndConst c k = c"

definition absentHand :: HandData where
  "absentHand = \<lparr>hd_x = 0.5, hd_y = 0.5, isPinching = False, pinchDistance = 0.2,
                  isPresent = False, landmarks = None\<rparr>"

definition openHand :: HandData where
  "openHand = \<lparr>hd_x = 0.5, hd_y = 0.5, isPinching = False, pinchDistance = 0.2,
                isPresent = True, landmarks = None\<rparr>"


section \<open>Visualizer.tsx: renderJellyfish\<close>

text \<open>The object literal pushed by the spawn loop; \<open>k\<close> is the index of its first draw.\<close>

definition newJellyfish :: "(nat \<Rightarrow> real) \<Rightarrow> nat \<Rightarrow> real \<Rightarrow> real \<Rightarrow> Jellyfish" where
  "newJellyfish r k handX handY =
     (let scale = 0.3 + r k * 0.7 in
      \<lparr>j_x = handX + (r (k + 1) - 0.5) * 80,
       j_y = handY + (r (k + 2) - 0.5) * 80,
       j_vx = (r (k + 3) - 0.5) * 5,
       j_vy = (r (k + 4) - 0.5) * 5,
       j_scale = scale,
       j_phase = r (k + 5) * 10,
       j_state = FOLLOWING,
       j_bubbles = []\<rparr>)"

fun spawnJellyfish ::
  "nat \<Rightarrow> (nat \<Rightarrow> real) \<Rightarrow> nat \<Rightarrow> real \<Rightarrow> real \<Rightarrow> Jellyfish list \<Rightarrow> Jellyfish list" where
  "spawnJellyfish 0 r k handX handY ps = ps"
| "spawnJellyfish (Suc n) r k handX handY ps =
     spawnJellyfish n r (k + 6) handX handY (ps @ [newJellyfish r k handX handY])"

text \<open>The state-management \<open>forEach\<close>: every FOLLOWING creature is set FREE.\<close>

fun releaseAll :: "(nat \<Rightarrow> real) \<Rightarrow> nat \<Rightarrow> Jellyfish list \<Rightarrow> Jellyfish list \<times> nat" where
  "releaseAll r k [] = ([], k)"
| "releaseAll r k (p # ps) =
     (if j_state p = FOLLOWING then
        (let p' = p\<lparr>j_state := FREE, j_vx := (r k - 0.5) * 6, j_vy := (r (k + 1) - 0.5) * 6\<rparr>;
             (ps', k') = releaseAll r (k + 2) ps
         in (p' # ps', k'))
      else
        (let (ps', k') = releaseAll r k ps in (p # ps', k')))"

definition moveJellyfish :: "real \<Rightarrow> real \<Rightarrow> real \<Rightarrow> real \<Rightarrow> real \<Rightarrow> Jellyfish \<Rightarrow> Jellyfish" where
  "moveJellyfish time handX handY w h jelly =
     (if j_state jelly = FOLLOWING then
        (let dx = handX - j_x jelly;
             dy = handY - j_y jelly;
             x1 = j_x jelly + dx * 0.08;
             y1 = j_y jelly + dy * 0.08;
             y2 = y1 + sin (time * 5 + j_phase jelly) * 1.5
         in jelly\<lparr>j_x := x1, j_y := y2\<rparr>)
      else
        (let x1 = j_x jelly + j_vx jelly;
             y1 = j_y jelly + j_vy jelly;
             vx1 = j_vx jelly * 0.98;
             vy1 = j_vy jelly * 0.98;
             vx2 = vx1 + sin (time * 2 + j_phase jelly) * 0.05;
             vy2 = vy1 + cos (time * 2 + j_phase jelly) * 0.05;
             x2 = (if x1 < - 100 then w + 100 else x1);
             x3 = (if x2 > w + 100 then - 100 else x2);
             y2 = (if y1 < - 100 then h + 100 else y1);
             y3 = (if y2 > h + 100 then - 100 else y2)
         in jelly\<lparr>j_x := x3, j_y := y3, j_vx := vx2, j_vy := vy2\<rparr>))"

definition emitBubble :: "(nat \<Rightarrow> real) \<Rightarrow> nat \<Rightarrow> Jellyfish \<Rightarrow> Jellyfish \<times> nat" where
  "emitBubble r k jelly =
     (if r k < 0.15 then
        (jelly\<lparr>j_bubbles := j_bubbles jelly @
            [\<lparr>b_x = j_x jelly + (r (k + 1) - 0.5) * 20 * j_scale jelly,
              b_y = j_y jelly + 20 * j_scale jelly,
              b_size = (r (k + 2) * 2 + 0.5) * j_scale jelly,
              b_speed = r (k + 3) * 2 + 1,
              b_alpha = 0.8,
              b_life = 100\<rparr>]\<rparr>, k + 4)
      else (jelly, k + 1))"

definition stepBubble :: "real \<Rightarrow> Bubble \<Rightarrow> Bubble" where
  "stepBubble time bubble =
     bubble\<lparr>b_y := b_y bubble - b_speed bubble,
            b_x := b_x bubble + sin (time * 5 + b_life bubble) * 0.5,
            b_alpha := b_alpha bubble - 0.02\<rparr>"

text \<open>The backward loop over the bubbles: the later elements are visited first.\<close>

fun updateBubbles :: "real \<Rightarrow> Bubble list \<Rightarrow> Bubble list" where
  "updateBubbles time [] = []"
| "updateBubbles time (b # bs) =
     (let rest = updateBubbles time bs;
          bubble = stepBubble time b
      in if b_alpha bubble \<le> 0 then rest else bubble # rest)"

text \<open>
  \<open>drawHighDensityJellyfish\<close> changes no state but calls \<open>Math.random()\<close> twice for
  every dot of the six bell layers, layer \<open>l\<close> having \<open>15 + 6 l + 1\<close> dots.
\<close>

definition drawRandomCalls :: nat where
  "drawRandomCalls = 2 * sum_list (map (\<lambda>l. 15 + l * 6 + 1) [0..<6])"

definition updateJellyfish ::
  "(nat \<Rightarrow> real) \<Rightarrow> nat \<Rightarrow> real \<Rightarrow> real \<Rightarrow> real \<Rightarrow> real \<Rightarrow> real \<Rightarrow> Jellyfish \<Rightarrow> Jellyfish \<times> nat" where
  "updateJellyfish r k time handX handY w h jelly =
     (let j1 = moveJellyfish time handX handY w h jelly;
          (j2, k1) = emitBubble r k j1;
          j3 = j2\<lparr>j_bubbles := updateBubbles time (j_bubbles j2)\<rparr>
      in (j3, k1 + drawRandomCalls))"

fun updateAllJellyfish ::
  "(nat \<Rightarrow> real) \<Rightarrow> nat \<Rightarrow> real \<Rightarrow> real \<Rightarrow> real \<Rightarrow> real \<Rightarrow> real \<Rightarrow> Jellyfish list \<Rightarrow> Jellyfish list \<times> nat" where
  "updateAllJellyfish r k time handX handY w h [] = ([], k)"
| "updateAllJellyfish r k time handX handY w h (jelly # ps) =
     (let (jelly', k1) = updateJellyfish r k time handX handY w h jelly;
          (ps', k2) = updateAllJellyfish r k1 time handX handY w h ps
      in (jelly' # ps', k2))"

text \<open>
  The state is the pair of \<open>particlesRef.current\<close> and \<open>wasOpenRef.current\<close>. The
  three blocks of \<open>renderJellyfish\<close> are given one definition each; between them they
  pass the array and the number of random draws made so far.
\<close>

definition handXOf :: "Tick \<Rightarrow> real" where
  "handXOf t =
     (if isPresent (hand t) then hd_x (hand t) * real (canvasWidth t)
      else real (canvasWidth t) / 2)"

definition handYOf :: "Tick \<Rightarrow> real" where
  "handYOf t =
     (if isPresent (hand t) then hd_y (hand t) * real (canvasHeight t)
      else real (canvasHeight t) / 2)"

text \<open>Spawn logic (rising edge trigger).\<close>

definition spawnPhase :: "Tick \<Rightarrow> Jellyfish list \<times> bool \<Rightarrow> Jellyfish list \<times> nat" where
  "spawnPhase t st =
     (let ps = fst st;
          wasOpen = snd st;
          isOpen = isOpenHand (hand t)
      in if isOpen \<and> \<not> wasOpen then
           (if length ps < 20 then
              (let spawnCount = nat \<lfloor>rnd t 0 * 2\<rfloor> + 3
               in (spawnJellyfish spawnCount (rnd t) 1 (handXOf t) (handYOf t) ps,
                   1 + 6 * spawnCount))
            else (ps, 0))
         else (ps, 0))"

text \<open>State management.\<close>

definition releasePhase :: "Tick \<Rightarrow> bool \<Rightarrow> Jellyfish list \<times> nat \<Rightarrow> Jellyfish list \<times> nat" where
  "releasePhase t wasOpenBefore s =
     (let isOpen = isOpenHand (hand t)
      in if (\<not> isOpen \<and> wasOpenBefore) \<or> \<not> isPresent (hand t)
         then releaseAll (rnd t) (snd s) (fst s) else s)"

text \<open>Update and draw.\<close>

definition updatePhase :: "Tick \<Rightarrow> Jellyfish list \<times> nat \<Rightarrow> Jellyfish list \<times> nat" where
  "updatePhase t s =
     (let time = real_of_int (tickNow t) / 1000
      in updateAllJellyfish (rnd t) (snd s) time (handXOf t) (handYOf t)
           (real (canvasWidth t)) (real (canvasHeight t)) (fst s))"

definition renderJellyfish :: "Tick \<Rightarrow> Jellyfish list \<times> bool \<Rightarrow> Jellyfish list \<times> bool" where
  "renderJellyfish t st =
     (let s1 = spawnPhase t st;
          s2 = releasePhase t (snd st) s1;
          s3 = updatePhase t s2
      in (fst s3, isOpenHand (hand t)))"

text \<open>The number of creatures the spawn block pushes, and the test of the release block.\<close>

definition spawned :: "Tick \<Rightarrow> Jellyfish list \<times> bool \<Rightarrow> nat" where
  "spawned t st =
     (if isOpenHand (hand t) \<and> \<not> snd st \<and> length (fst st) < 20
      then nat \<lfloor>rnd t 0 * 2\<rfloor> + 3 else 0)"

definition releasing :: "Tick \<Rightarrow> Jellyfish list \<times> bool \<Rightarrow> bool" where
  "releasing t st = ((\<not> isOpenHand (hand t) \<and> snd st) \<or> \<not> isPresent (hand t))"

fun jellyfishTicks :: "Tick list \<Rightarrow> Jellyfish list \<times> bool \<Rightarrow> Jellyfish list \<times> bool" where
  "jellyfishTicks [] st = st"
| "jellyfishTicks (t # ts) st = jellyfishTicks ts (renderJellyfish t st)"

text \<open>Concrete ticks on a 1280 by 720 canvas with every random draw equal to \<open>c\<close>.\<close>

definition tickWith :: "HandData \<Rightarrow> real \<Rightarrow> Tick" where
  "tickWith hdata c =
     \<lparr>canvasWidth = 1280, canvasHeight = 720, hand = hdata, tickNow = 0, rnd = rndConst c\<rparr>"

text \<open>An open hand followed by no hand: one rising edge of \<open>isOpen\<close>.\<close>

definition spawnBurst :: "Tick list" where
  "spawnBurst = [tickWith openHand 0, tickWith absentHand 0]"

text \<open>The same with batches of four, and a run that ends with 23 creatures.\<close>

definition largeBurst :: "Tick list" where
  "largeBurst = [tickWith openHand 0.5, tickWith absentHand 0.5]"

definition peakTicks :: "Tick list" where
  "peakTicks = concat (replicate 4 largeBurst) @ spawnBurst @ largeBurst"

definition followingJelly :: Jellyfish where
  "followingJelly = \<lparr>j_x = 600, j_y = 300, j_vx = 1, j_vy = 1, j_scale = 0.5, j_phase = 0,
                     j_state = FOLLOWING, j_bubbles = []\<rparr>"


section \<open>Visualizer.tsx: renderSnow\<close>

text \<open>
  \<open>createSnowflake\<close>: \<open>k\<close> is the index of the draw that decides \<open>isBig\<close>; the
  properties of the object literal are evaluated in the order they are written.
\<close>

definition createSnowflake :: "(nat \<Rightarrow> real) \<Rightarrow> nat \<Rightarrow> real \<Rightarrow> real \<Rightarrow> Snowflake" where
  "createSnowflake r k x y =
     (let isBig = (r k > 0.95) in
      \<lparr>f_x = x,
       f_y = y,
       f_vx = (r (k + 1) - 0.5) * (if isBig then 0.5 else 2.0),
       f_vy = (if isBig then 2.2 + r (k + 2) * 1.5 else 0.3 + r (k + 2) * 0.8),
       f_size = (if isBig then 8 + r (k + 3) * 12 else 1 + r (k + 3) * 3),
       f_spin = r (k + 4) * pi,
       f_spinSpeed = (r (k + 5) - 0.5) * 0.05,
       f_opacity = (if isBig then 0.95 else 0.85),
       f_isParticle = (\<not> isBig)\<rparr>)"

text \<open>Ambient falling snow: the argument \<open>Math.random() * canvas.width\<close> is drawn first.\<close>

fun ambientSnow :: "nat \<Rightarrow> (nat \<Rightarrow> real) \<Rightarrow> nat \<Rightarrow> real \<Rightarrow> Snowflake list \<Rightarrow> Snowflake list" where
  "ambientSnow 0 r k w ps = ps"
| "ambientSnow (Suc n) r k w ps =
     ambientSnow n r (k + 7) w (ps @ [createSnowflake r (k + 1) (r k * w) (- 20)])"

text \<open>Hand spawn snow.\<close>

fun handSnow ::
  "nat \<Rightarrow> (nat \<Rightarrow> real) \<Rightarrow> nat \<Rightarrow> real \<Rightarrow> real \<Rightarrow> Snowflake list \<Rightarrow> Snowflake list" where
  "handSnow 0 r k handX handY ps = ps"
| "handSnow (Suc n) r k handX handY ps =
     handSnow n r (k + 8) handX handY
       (ps @ [createSnowflake r (k + 2) (handX + (r k - 0.5) * 60)
                (handY + (r (k + 1) - 0.5) * 60)])"

definition moveSnowflake :: "Snowflake \<Rightarrow> Snowflake" where
  "moveSnowflake p =
     p\<lparr>f_x := f_x p + (f_vx p + sin (f_y p * 0.01) * (if f_isParticle p then 0.8 else 0.2)),
       f_y := f_y p + f_vy p,
       f_spin := f_spin p + f_spinSpeed p\<rparr>"

definition groundColumn :: "nat \<Rightarrow> Snowflake \<Rightarrow> int" where
  "groundColumn w p = max 0 (min (int w - 1) \<lfloor>f_x p\<rfloor>)"

text \<open>
  One iteration of the mound loop. The ground is a \<open>Float32Array\<close>: a write beyond its
  end is ignored. For \<open>radius = 0\<close> JavaScript divides zero by zero; flakes made by
  \<open>createSnowflake\<close> have size at least 1, so their radius is at least 2.
\<close>

definition moundStep :: "nat \<Rightarrow> int \<Rightarrow> real \<Rightarrow> int \<Rightarrow> int \<Rightarrow> real list \<Rightarrow> real list" where
  "moundStep w gx sz radius r ground =
     (let idx = gx + r in
      if idx \<ge> 0 \<and> idx < int w then
        (if nat idx < length ground then
           (let contribution = (1 - real_of_int \<bar>r\<bar> / real_of_int radius) * (sz * 0.5);
                v = ground ! nat idx - contribution
            in ground[nat idx := (if v < 0 then 0 else v)])
         else ground)
      else ground)"

definition addMound :: "nat \<Rightarrow> int \<Rightarrow> real \<Rightarrow> real list \<Rightarrow> real list" where
  "addMound w gx sz ground =
     (let radius = \<lfloor>sz * 2\<rfloor>
      in fold (moundStep w gx sz radius) [- radius..radius] ground)"

text \<open>
  The backward loop over the flakes (later elements first). Reading the ground beyond
  its end gives \<open>undefined\<close>, and the comparison with it is false.
\<close>

fun updateSnowflakes ::
  "nat \<Rightarrow> nat \<Rightarrow> Snowflake list \<Rightarrow> real list option \<Rightarrow> Snowflake list \<times> real list option" where
  "updateSnowflakes w h [] ground = ([], ground)"
| "updateSnowflakes w h (q # qs) ground =
     (let (qs', g1) = updateSnowflakes w h qs ground;
          p = moveSnowflake q;
          gx = groundColumn w p;
          landed =
            (case g1 of
               None \<Rightarrow> f_y p \<ge> real h - f_size p * 0.5
             | Some g \<Rightarrow> nat gx < length g \<and> f_y p \<ge> g ! nat gx - f_size p * 0.5)
      in if landed then (qs', map_option (addMound w gx (f_size p)) g1)
         else (p # qs', g1))"

definition meltStep :: "nat \<Rightarrow> nat \<Rightarrow> int \<Rightarrow> int \<Rightarrow> real list \<Rightarrow> real list" where
  "meltStep w h hx dx ground =
     (let idx = hx + dx in
      if idx \<ge> 0 \<and> idx < int w then
        (if nat idx < length ground then
           (let dist = \<bar>dx\<bar>;
                power = 3 * (1 - real_of_int dist / 50)
            in ground[nat idx := min (real h) (ground ! nat idx + power)])
         else ground)
      else ground)"

definition meltSnow :: "Tick \<Rightarrow> real list option \<Rightarrow> real list option" where
  "meltSnow t ground =
     (case ground of
        None \<Rightarrow> None
      | Some g \<Rightarrow>
          if isPresent (hand t) then
            (let hx = \<lfloor>hd_x (hand t) * real (canvasWidth t)\<rfloor>;
                 hy = hd_y (hand t) * real (canvasHeight t)
             in if hy > real (canvasHeight t) * 0.7 then
                  (let brushSize = 50
                   in Some (fold (meltStep (canvasWidth t) (canvasHeight t) hx)
                              [- brushSize..brushSize] g))
                else Some g)
          else Some g)"

text \<open>The state is the pair of \<open>particlesRef.current\<close> and \<open>snowGroundRef.current\<close>.\<close>

definition renderSnow ::
  "Tick \<Rightarrow> Snowflake list \<times> real list option \<Rightarrow> Snowflake list \<times> real list option" where
  "renderSnow t st =
     (let ps = fst st;
          ground = snd st;
          isOpen = isOpenHand (hand t);
          handX = hd_x (hand t) * real (canvasWidth t);
          handY = hd_y (hand t) * real (canvasHeight t);
          ps1 = ambientSnow 2 (rnd t) 0 (real (canvasWidth t)) ps;
          ps2 = (if isOpen then handSnow 3 (rnd t) 14 handX handY ps1 else ps1);
          (ps3, g1) = updateSnowflakes (canvasWidth t) (canvasHeight t) ps2 ground
      in (ps3, meltSnow t g1))"

text \<open>The part of \<open>render\<close> that (re)creates the ground before \<open>renderSnow\<close> is called.\<close>

definition initSnowGround :: "Tick \<Rightarrow> real list option \<Rightarrow> real list option" where
  "initSnowGround t ground =
     (case ground of
        None \<Rightarrow> Some (replicate (canvasWidth t) (real (canvasHeight t)))
      | Some g \<Rightarrow>
          if length g \<noteq> canvasWidth t
          then Some (replicate (canvasWidth t) (real (canvasHeight t)))
          else Some g)"

definition snowFrame ::
  "Tick \<Rightarrow> Snowflake list \<times> real list option \<Rightarrow> Snowflake list \<times> real list option" where
  "snowFrame t st = renderSnow t (fst st, initSnowGround t (snd st))"

fun snowFrames ::
  "Tick list \<Rightarrow> Snowflake list \<times> real list option \<Rightarrow> Snowflake list \<times> real list option" where
  "snowFrames [] st = st"
| "snowFrames (t # ts) st = snowFrames ts (snowFrame t st)"

text \<open>Every entry of the height field lies between 0 and the canvas height.\<close>

definition heightsWithin :: "nat \<Rightarrow> real list \<Rightarrow> bool" where
  "heightsWithin h g = list_all (\<lambda>v. 0 \<le> v \<and> v \<le> real h) g"

definition groundWithin :: "nat \<Rightarrow> real list option \<Rightarrow> bool" where
  "groundWithin h ground = (case ground of None \<Rightarrow> True | Some g \<Rightarrow> heightsWithin h g)"

text \<open>A hand low in the frame (melting), on a canvas four columns wide.\<close>

definition lowHand :: HandData where
  "lowHand = \<lparr>hd_x = 0.5, hd_y = 0.9, isPinching = False, pinchDistance = 0.2,
               isPresent = True, landmarks = None\<rparr>"

definition landingFlake :: Snowflake where
  "landingFlake = \<lparr>f_x = 1.5, f_y = 49.2, f_vx = 0.5, f_vy = 0.7, f_size = 2, f_spin = 0,
                    f_spinSpeed = 0.01, f_opacity = 0.85, f_isParticle = True\<rparr>"

definition narrowTick :: "HandData \<Rightarrow> real \<Rightarrow> Tick" where
  "narrowTick hdata c =
     \<lparr>canvasWidth = 4, canvasHeight = 100, hand = hdata, tickNow = 0, rnd = rndConst c\<rparr>"


section \<open>Visualizer.tsx: renderRain\<close>

definition rainIntensity :: "HandData \<Rightarrow> real" where
  "rainIntensity hdata =
     (if isOpenHand hdata then
        (let openness = min (max ((pinchDistance hdata - 0.02) * 4) 0) 1 in openness)
      else 0)"

fun spawnDrops :: "nat \<Rightarrow> (nat \<Rightarrow> real) \<Rightarrow> nat \<Rightarrow> real \<Rightarrow> RainDrop list \<Rightarrow> RainDrop list" where
  "spawnDrops 0 r k w ps = ps"
| "spawnDrops (Suc n) r k w ps =
     spawnDrops n r (k + 3) w
       (ps @ [\<lparr>d_x = r k * w, d_y = - 50, d_len = 20 + r (k + 1) * 20,
                d_speed = 20 + r (k + 2) * 10\<rparr>])"

definition dropRipple :: "(nat \<Rightarrow> real) \<Rightarrow> nat \<Rightarrow> real \<Rightarrow> real \<Rightarrow> Ripple" where
  "dropRipple r k x waterLevel =
     \<lparr>r_x = x, r_y = waterLevel + r k * 10, r_r = 0, r_maxR = 20 + r (k + 1) * 20,
      r_alpha = 1, r_isHand = False\<rparr>"

definition dropSplash :: "(nat \<Rightarrow> real) \<Rightarrow> nat \<Rightarrow> real \<Rightarrow> real \<Rightarrow> Splash" where
  "dropSplash r k x waterLevel =
     \<lparr>s_x = x, s_y = waterLevel, s_vx = (r k - 0.5) * 4, s_vy = - (r (k + 1) * 5 + 2),
      s_life = 1.0\<rparr>"

text \<open>
  The backward loop over the drops (later elements first): a drop below the water line
  is removed and pushes one ripple and three splashes, using eight draws.
\<close>

fun updateDrops ::
  "(nat \<Rightarrow> real) \<Rightarrow> nat \<Rightarrow> real \<Rightarrow> RainDrop list \<Rightarrow> Ripple list \<times> Splash list \<Rightarrow>
     RainDrop list \<times> (Ripple list \<times> Splash list) \<times> nat" where
  "updateDrops r k waterLevel [] rs = ([], rs, k)"
| "updateDrops r k waterLevel (q # qs) rs =
     (let (qs', rs1, k1) = updateDrops r k waterLevel qs rs;
          p = q\<lparr>d_y := d_y q + d_speed q\<rparr>
      in if d_y p > waterLevel then
           (qs',
            (fst rs1 @ [dropRipple r k1 (d_x p) waterLevel],
             snd rs1 @ map (\<lambda>s. dropSplash r (k1 + 2 + 2 * s) (d_x p) waterLevel) [0..<3]),
            k1 + 8)
         else (p # qs', rs1, k1))"

definition handRipples ::
  "Tick \<Rightarrow> nat \<Rightarrow> real \<Rightarrow> Ripple list \<times> Splash list \<Rightarrow> Ripple list \<times> Splash list" where
  "handRipples t k waterLevel rs =
     (let hX = hd_x (hand t) * real (canvasWidth t);
          hY = hd_y (hand t) * real (canvasHeight t)
      in if isPresent (hand t) \<and> hY > waterLevel - 20 then
           (let rs1 = (if rnd t k > 0.5
                       then fst rs @ [\<lparr>r_x = hX, r_y = hY, r_r = 0, r_maxR = 40, r_alpha = 1,
                                       r_isHand = True\<rparr>]
                       else fst rs);
                ss1 = (if rnd t (k + 1) > 0.8
                       then snd rs @ [\<lparr>s_x = hX, s_y = hY, s_vx = (rnd t (k + 2) - 0.5) * 6,
                                       s_vy = - rnd t (k + 3) * 8, s_life = 1.0\<rparr>]
                       else snd rs)
            in (rs1, ss1))
         else rs)"

fun updateRipples :: "Ripple list \<Rightarrow> Ripple list" where
  "updateRipples [] = []"
| "updateRipples (q # qs) =
     (let rest = updateRipples qs;
          rip = q\<lparr>r_r := r_r q + 1, r_alpha := r_alpha q - 0.02\<rparr>
      in if r_alpha rip \<le> 0 then rest else rip # rest)"

fun updateSplashes :: "real \<Rightarrow> Splash list \<Rightarrow> Splash list" where
  "updateSplashes h [] = []"
| "updateSplashes h (q # qs) =
     (let rest = updateSplashes h qs;
          s = q\<lparr>s_x := s_x q + s_vx q, s_y := s_y q + s_vy q, s_vy := s_vy q + 0.5,
                s_life := s_life q - 0.05\<rparr>
      in if s_life s \<le> 0 \<or> s_y s > h then rest else s # rest)"

text \<open>
  The state is the triple of \<open>particlesRef.current\<close>, \<open>ripplesRef.current\<close> and
  \<open>splashesRef.current\<close>.
\<close>

definition renderRain ::
  "Tick \<Rightarrow> RainDrop list \<times> Ripple list \<times> Splash list \<Rightarrow>
     RainDrop list \<times> Ripple list \<times> Splash list" where
  "renderRain t st =
     (let ps = fst st;
          intensity = rainIntensity (hand t);
          waterLevel = real (canvasHeight t) - 100;
          spawnRate = nat \<lfloor>intensity * 10\<rfloor>;
          ps1 = spawnDrops spawnRate (rnd t) 0 (real (canvasWidth t)) ps;
          (ps2, rs1, k1) = updateDrops (rnd t) (3 * spawnRate) waterLevel ps1 (snd st);
          rs2 = handRipples t k1 waterLevel rs1
      in (ps2, updateRipples (fst rs2), updateSplashes (real (canvasHeight t)) (snd rs2)))"

fun rainTicks ::
  "Tick list \<Rightarrow> RainDrop list \<times> Ripple list \<times> Splash list \<Rightarrow>
     RainDrop list \<times> Ripple list \<times> Splash list" where
  "rainTicks [] st = st"
| "rainTicks (t # ts) st = rainTicks ts (renderRain t st)"

text \<open>The move of a drop, \<open>p.y += p.speed\<close>, as a function of its own.\<close>

definition fall :: "RainDrop \<Rightarrow> RainDrop" where
  "fall q = q\<lparr>d_y := d_y q + d_speed q\<rparr>"

text \<open>The drops of a list that cross the water line on the next update.\<close>

definition crossing :: "real \<Rightarrow> RainDrop list \<Rightarrow> RainDrop list" where
  "crossing waterLevel qs = filter (\<lambda>q. d_y q + d_speed q > waterLevel) qs"

text \<open>The drop of the scenario: spawned at \<open>y = -50\<close> with fall speed 25.\<close>

definition scenarioDrop :: RainDrop where
  "scenarioDrop = \<lparr>d_x = 300, d_y = - 50, d_len = 30, d_speed = 25\<rparr>"

text \<open>The number of ticks after which a drop from -50 with speed 25 is below the line.\<close>

definition ticksToWater :: "nat \<Rightarrow> nat" where
  "ticksToWater h = (h - 50) div 25 + 1"


section \<open>Visualizer.tsx: the render callback\<close>

text \<open>
  \<open>particlesRef\<close> holds objects of the active simulation only (shown below as
  \<open>render_defined\<close>). The three functions read the array at the type its simulation
  expects and give \<open>None\<close> when it holds anything else.
\<close>

fun jellyfishOf :: "Particle list \<Rightarrow> Jellyfish list option" where
  "jellyfishOf [] = Some []"
| "jellyfishOf (Jelly j # ps) = map_option ((#) j) (jellyfishOf ps)"
| "jellyfishOf (_ # ps) = None"

fun snowflakesOf :: "Particle list \<Rightarrow> Snowflake list option" where
  "snowflakesOf [] = Some []"
| "snowflakesOf (Flake f # ps) = map_option ((#) f) (snowflakesOf ps)"
| "snowflakesOf (_ # ps) = None"

fun dropsOf :: "Particle list \<Rightarrow> RainDrop list option" where
  "dropsOf [] = Some []"
| "dropsOf (Drop d # ps) = map_option ((#) d) (dropsOf ps)"
| "dropsOf (_ # ps) = None"

text \<open>
  One call of \<open>render\<close> with the mode and the pose of the App: it creates the snow
  ground when needed and dispatches on the mode. \<open>None\<close> stands for a call on an array
  with objects of another simulation, which the model does not follow.
\<close>

definition render :: "Tick \<Rightarrow> App \<Rightarrow> App option" where
  "render t st =
     (let v = visualizer st;
          t' = t\<lparr>hand := handData st\<rparr>
      in case mode st of
           JELLYFISH \<Rightarrow>
             (case jellyfishOf (particles v) of
                None \<Rightarrow> None
              | Some ps \<Rightarrow>
                  (let r = renderJellyfish t' (ps, wasOpen v)
                   in Some (st\<lparr>visualizer := v\<lparr>particles := map Jelly (fst r),
                                                wasOpen := snd r\<rparr>\<rparr>)))
         | SNOW \<Rightarrow>
             (case snowflakesOf (particles v) of
                None \<Rightarrow> None
              | Some ps \<Rightarrow>
                  (let r = renderSnow t' (ps, initSnowGround t' (snowGround v))
                   in Some (st\<lparr>visualizer := v\<lparr>particles := map Flake (fst r),
                                                snowGround := snd r\<rparr>\<rparr>)))
         | RAIN \<Rightarrow>
             (case dropsOf (particles v) of
                None \<Rightarrow> None
              | Some ps \<Rightarrow>
                  (let r = renderRain t' (ps, ripples v, splashes v)
                   in Some (st\<lparr>visualizer := v\<lparr>particles := map Drop (fst r),
                                                ripples := fst (snd r),
                                                splashes := snd (snd r)\<rparr>\<rparr>))))"

text \<open>The particle array holds only objects of the simulation of the current mode.\<close>

fun ownedBy :: "AppMode \<Rightarrow> Particle list \<Rightarrow> bool" where
  "ownedBy JELLYFISH ps = (jellyfishOf ps \<noteq> None)"
| "ownedBy SNOW ps = (snowflakesOf ps \<noteq> None)"
| "ownedBy RAIN ps = (dropsOf ps \<noteq> None)"

definition ownParticles :: "App \<Rightarrow> bool" where
  "ownParticles st = ownedBy (mode st) (particles (visualizer st))"


section \<open>Auxiliary facts\<close>

lemma sqrt_lt_iff: "0 < c \<Longrightarrow> (sqrt v < c) = (v < c\<^sup>2)"
  by (metis real_sqrt_less_iff real_sqrt_abs abs_of_pos)

lemma sqrt_gt_iff: "0 \<le> c \<Longrightarrow> (c < sqrt v) = (c\<^sup>2 < v)"
  by (metis real_sqrt_less_iff real_sqrt_abs abs_of_nonneg)

lemma nextMode_neq: "nextMode m \<noteq> m"
  by (cases m) (simp_all add: nextMode_def)

lemma okHand_length: "length okHand = 21"
  by (simp add: okHand_def)

lemma okHand_nth:
  "okHand ! 0 = pt 0.5 0.9" "okHand ! 4 = pt 0.5 0.6" "okHand ! 8 = pt 0.5 0.6"
  "okHand ! 12 = pt 0.5 0.5" "okHand ! 16 = pt 0.5 0.55" "okHand ! 20 = pt 0.5 0.65"
  by (simp_all add: okHand_def nth_list_update)

lemma okHand_pinch: "pinchDistanceOf okHand = 0"
  by (simp add: pinchDistanceOf_def okHand_nth pt_def)

lemma sqrt_lt_pinch: "(sqrt v < 0.06) = (v < 0.0036)"
  using sqrt_lt_iff [of "0.06" v] by (simp add: power2_eq_square)

lemma sqrt_gt_quarter: "(0.25 < sqrt v) = (0.0625 < v)"
  using sqrt_gt_iff [of "0.25" v] by (simp add: power2_eq_square)

lemma sqrt_gt_fifth: "(0.2 < sqrt v) = (0.04 < v)"
  using sqrt_gt_iff [of "0.2" v] by (simp add: power2_eq_square)

lemma isOkGesture_squares:
  "isOkGesture lms =
     ((lm_x (lms ! 8) - lm_x (lms ! 4)) * (lm_x (lms ! 8) - lm_x (lms ! 4)) +
      (lm_y (lms ! 8) - lm_y (lms ! 4)) * (lm_y (lms ! 8) - lm_y (lms ! 4)) < 0.0036 \<and>
      0.0625 < (lm_x (lms ! 12) - lm_x (lms ! 0))\<^sup>2 + (lm_y (lms ! 12) - lm_y (lms ! 0))\<^sup>2 \<and>
      0.0625 < (lm_x (lms ! 16) - lm_x (lms ! 0))\<^sup>2 + (lm_y (lms ! 16) - lm_y (lms ! 0))\<^sup>2 \<and>
      0.04 < (lm_x (lms ! 20) - lm_x (lms ! 0))\<^sup>2 + (lm_y (lms ! 20) - lm_y (lms ! 0))\<^sup>2)"
  unfolding isOkGesture_def pinchDistanceOf_def Let_def
  by (simp only: sqrt_lt_pinch sqrt_gt_quarter sqrt_gt_fifth)

lemma okHand_isOk: "isOkGesture okHand"
  by (simp add: isOkGesture_squares okHand_nth pt_def power2_eq_square)

lemma okFrameAt_ok: "okFrame (okFrameAt v t)"
  by (simp add: okFrame_def okFrameAt_def okHand_length okHand_isOk)

lemma loop_okFrame:
  assumes "okFrame f" and "videoTime f \<noteq> lastVideoTime st"
  shows "loop f st =
           Inr (detectHand (hd (detections f)) (dateNow f) (st\<lparr>lastVideoTime := videoTime f\<rparr>))"
  using assms by (auto simp: okFrame_def loop_def split: list.splits)

lemma loop_okFrameAt:
  "v \<noteq> lastVideoTime st \<Longrightarrow>
   loop (okFrameAt v t) st = Inr (detectHand okHand t (st\<lparr>lastVideoTime := v\<rparr>))"
  using loop_okFrame [of "okFrameAt v t" st] okFrameAt_ok [of v t]
  by (simp add: okFrameAt_def)

lemma detectHand_mode:
  "mode (detectHand lms now st) =
     (if isOkGesture lms \<and> now - lastSwitchTime st > 1500 then nextMode (mode st) else mode st)"
  by (simp add: detectHand_def Let_def setMode_def)

lemma detectHand_lastSwitchTime:
  "lastSwitchTime (detectHand lms now st) =
     (if isOkGesture lms \<and> now - lastSwitchTime st > 1500 then now else lastSwitchTime st)"
  by (simp add: detectHand_def Let_def setMode_def)

lemma detectHand_lastVideoTime:
  "lastVideoTime (detectHand lms now st) = lastVideoTime st"
  by (simp add: detectHand_def Let_def setMode_def)

lemma detectHand_visualizer:
  "visualizer (detectHand lms now st) =
     (if isOkGesture lms \<and> now - lastSwitchTime st > 1500
      then resetSystems (visualizer st) else visualizer st)"
  by (simp add: detectHand_def Let_def setMode_def nextMode_neq)


section \<open>Gesture interpretation\<close>

lemma sqrt_of_square: "0 \<le> y \<Longrightarrow> y\<^sup>2 = v \<Longrightarrow> sqrt v = y"
  by (rule real_sqrt_unique)

lemma planar_eq_spatial:
  "(sqrt (a + b) = sqrt (a + b + c\<^sup>2)) = (c = (0::real))"
  by simp

text \<open>
  C4 (amended). On a detection tick with a hand, the published pinch distance is the
  Euclidean distance in the image plane, over the x and y coordinates only, between the
  index fingertip (landmark 8) and the thumb fingertip (landmark 4), and \<open>isPinching\<close>
  holds exactly when it is below 0.06. The depth coordinate is not used: the value is at
  most the distance of the two landmarks in space and equals it exactly when their
  depths coincide.
\<close>

theorem pinch_distance_planar:
  assumes "videoReady f" and "videoTime f \<noteq> lastVideoTime st"
    and "detections f = lms # rest" and "21 \<le> length lms"
  shows "\<exists>st'. loop f st = Inr st' \<and>
           pinchDistance (handData st') =
             dist (Complex (lm_x (lms ! 8)) (lm_y (lms ! 8)))
                  (Complex (lm_x (lms ! 4)) (lm_y (lms ! 4))) \<and>
           isPinching (handData st') = (pinchDistance (handData st') < 0.06) \<and>
           pinchDistance (handData st') \<le> landmarkDistance3 (lms ! 8) (lms ! 4) \<and>
           (pinchDistance (handData st') = landmarkDistance3 (lms ! 8) (lms ! 4)) =
             (lm_z (lms ! 8) = lm_z (lms ! 4))"
proof -
  define st' where "st' = detectHand lms (dateNow f) (st\<lparr>lastVideoTime := videoTime f\<rparr>)"
  have l: "loop f st = Inr st'"
    using assms by (simp add: loop_def st'_def)
  have p: "pinchDistance (handData st') =
      sqrt ((lm_x (lms ! 8) - lm_x (lms ! 4))\<^sup>2 + (lm_y (lms ! 8) - lm_y (lms ! 4))\<^sup>2)"
    by (simp add: st'_def detectHand_def Let_def pinchDistanceOf_def power2_eq_square)
  have d: "pinchDistance (handData st') =
      dist (Complex (lm_x (lms ! 8)) (lm_y (lms ! 8))) (Complex (lm_x (lms ! 4)) (lm_y (lms ! 4)))"
    unfolding p by (simp add: dist_complex_def cmod_def)
  have i: "isPinching (handData st') = (pinchDistance (handData st') < 0.06)"
    by (simp add: st'_def detectHand_def Let_def)
  have le: "pinchDistance (handData st') \<le> landmarkDistance3 (lms ! 8) (lms ! 4)"
    unfolding p landmarkDistance3_def by simp
  have eq: "(pinchDistance (handData st') = landmarkDistance3 (lms ! 8) (lms ! 4)) =
      (lm_z (lms ! 8) = lm_z (lms ! 4))"
    unfolding p landmarkDistance3_def by simp
  show ?thesis
    using l d i le eq by blast
qed

lemma hand_nth:
  "nearHand ! 4 = pt3 0.5 0.6 0.1" "nearHand ! 8 = pt3 0.53 0.64 (- 0.2)"
  "apartHand ! 4 = pt3 0.5 0.6 0.1" "apartHand ! 8 = pt3 0.56 0.68 0.1"
  "depthHand ! 4 = pt3 0.5 0.6 0" "depthHand ! 8 = pt3 0.5 0.6 0.1"
  by (simp_all add: nearHand_def apartHand_def depthHand_def)

lemma hand_length: "length nearHand = 21" "length apartHand = 21" "length depthHand = 21"
  by (simp_all add: nearHand_def apartHand_def depthHand_def)

lemma near_dist:
  "dist (Complex (lm_x (nearHand ! 8)) (lm_y (nearHand ! 8)))
        (Complex (lm_x (nearHand ! 4)) (lm_y (nearHand ! 4))) = 0.05"
proof -
  have "sqrt ((3 / 100)\<^sup>2 + (1 / 25)\<^sup>2) = 1 / 20"
    by (rule sqrt_of_square) (simp_all add: power2_eq_square)
  then show ?thesis
    by (simp add: hand_nth pt3_def dist_complex_def cmod_def)
qed

lemma apart_dist:
  "dist (Complex (lm_x (apartHand ! 8)) (lm_y (apartHand ! 8)))
        (Complex (lm_x (apartHand ! 4)) (lm_y (apartHand ! 4))) = 0.1"
proof -
  have "sqrt ((3 / 50)\<^sup>2 + (2 / 25)\<^sup>2) = 1 / 10"
    by (rule sqrt_of_square) (simp_all add: power2_eq_square)
  then show ?thesis
    by (simp add: hand_nth pt3_def dist_complex_def cmod_def)
qed

theorem pinch_distance_planar_witness:
  "(\<exists>st'. loop (handFrame nearHand) initialApp = Inr st' \<and>
          pinchDistance (handData st') = 0.05 \<and> isPinching (handData st') \<and>
          pinchDistance (handData st') \<noteq> landmarkDistance3 (nearHand ! 8) (nearHand ! 4)) \<and>
   (\<exists>st'. loop (handFrame apartHand) initialApp = Inr st' \<and>
          pinchDistance (handData st') = 0.1 \<and> \<not> isPinching (handData st') \<and>
          pinchDistance (handData st') = landmarkDistance3 (apartHand ! 8) (apartHand ! 4))"
proof -
  have v: "videoReady (handFrame lms)" "videoTime (handFrame lms) \<noteq> lastVideoTime initialApp"
    "detections (handFrame lms) = lms # []" for lms
    by (simp_all add: handFrame_def initialApp_def)
  have z: "lm_z (nearHand ! 8) \<noteq> lm_z (nearHand ! 4)" "lm_z (apartHand ! 8) = lm_z (apartHand ! 4)"
    by (simp_all add: hand_nth pt3_def)
  have a: "\<exists>st'. loop (handFrame nearHand) initialApp = Inr st' \<and>
          pinchDistance (handData st') = 0.05 \<and> isPinching (handData st') \<and>
          pinchDistance (handData st') \<noteq> landmarkDistance3 (nearHand ! 8) (nearHand ! 4)"
    using pinch_distance_planar [OF v, of nearHand] z(1)
    by (auto simp: hand_length near_dist)
  have b: "\<exists>st'. loop (handFrame apartHand) initialApp = Inr st' \<and>
          pinchDistance (handData st') = 0.1 \<and> \<not> isPinching (handData st') \<and>
          pinchDistance (handData st') = landmarkDistance3 (apartHand ! 8) (apartHand ! 4)"
    using pinch_distance_planar [OF v, of apartHand] z(2)
    by (auto simp: hand_length apart_dist)
  show ?thesis
    using a b by blast
qed

text \<open>
  C4 as stated fails for the distance between the landmarks as points of space: two
  fingertips 0.1 apart in depth only are published with pinch distance 0 and as
  pinching.
\<close>

theorem pinch_ignores_depth_counterexample:
  "map_sum id (pinchDistance \<circ> handData) (loop (handFrame depthHand) initialApp) = Inr 0 \<and>
   map_sum id (isPinching \<circ> handData) (loop (handFrame depthHand) initialApp) = Inr True \<and>
   landmarkDistance3 (depthHand ! 8) (depthHand ! 4) = 0.1 \<and>
   \<not> landmarkDistance3 (depthHand ! 8) (depthHand ! 4) < 0.06"
proof -
  have l: "loop (handFrame depthHand) initialApp =
      Inr (detectHand depthHand 1700000000000 (initialApp\<lparr>lastVideoTime := 0\<rparr>))"
    by (simp add: loop_def handFrame_def initialApp_def hand_length)
  have p: "pinchDistanceOf depthHand = 0"
    by (simp add: pinchDistanceOf_def hand_nth pt3_def)
  have d: "landmarkDistance3 (depthHand ! 8) (depthHand ! 4) = 0.1"
    unfolding landmarkDistance3_def
    by (rule sqrt_of_square) (simp_all add: hand_nth pt3_def power2_eq_square)
  show ?thesis
    unfolding l d by (simp add: detectHand_def Let_def p)
qed

text \<open>
  C3 (amended). On a tick with the OK gesture, the switch is taken exactly when strictly
  more than 1500 ms have passed since the time recorded at the last gesture switch: then
  the mode advances and the timer is set to the current time; when at most 1500 ms have
  passed, the mode and the timer are unchanged.
\<close>

theorem debounce_strict:
  assumes "okFrame f" and "videoTime f \<noteq> lastVideoTime st"
  shows "\<exists>st'. loop f st = Inr st' \<and>
           (1500 < dateNow f - lastSwitchTime st \<longrightarrow>
              mode st' = nextMode (mode st) \<and> mode st' \<noteq> mode st \<and>
              lastSwitchTime st' = dateNow f) \<and>
           (dateNow f - lastSwitchTime st \<le> 1500 \<longrightarrow>
              mode st' = mode st \<and> lastSwitchTime st' = lastSwitchTime st)"
proof -
  from assms have ok: "isOkGesture (hd (detections f))"
    by (auto simp: okFrame_def split: list.splits)
  show ?thesis
    using ok
    by (simp add: loop_okFrame [OF assms] detectHand_mode detectHand_lastSwitchTime nextMode_neq)
qed

theorem debounce_strict_witness:
  "(\<exists>st'. loop (okFrameAt 1 1700000001501) busyApp = Inr st' \<and>
      mode st' = JELLYFISH \<and> lastSwitchTime st' = 1700000001501) \<and>
   (\<exists>st'. loop (okFrameAt 1 1700000001500) busyApp = Inr st' \<and>
      mode st' = RAIN \<and> lastSwitchTime st' = 1700000000000)"
  using debounce_strict [of "okFrameAt 1 1700000001501" busyApp]
        debounce_strict [of "okFrameAt 1 1700000001500" busyApp]
        okFrameAt_ok [of 1 1700000001501] okFrameAt_ok [of 1 1700000001500]
  by (auto simp: okFrameAt_def busyApp_def initialApp_def nextMode_def)

text \<open>
  C3 as stated fails at exactly 1500 ms: a first OK gesture switches to SNOW, a second one
  1500 ms later is ignored although "at least 1500 ms" have elapsed.
\<close>

theorem debounce_at_1500_counterexample:
  "(1500::int) \<le> 1700000001500 - 1700000000000 \<and>
   map_sum id mode (loops [okFrameAt 0 1700000000000] initialApp) = Inr SNOW \<and>
   map_sum id lastSwitchTime (loops [okFrameAt 0 1700000000000] initialApp) = Inr 1700000000000 \<and>
   map_sum id mode
     (loops [okFrameAt 0 1700000000000, okFrameAt 1 1700000001500] initialApp) = Inr SNOW \<and>
   map_sum id lastSwitchTime
     (loops [okFrameAt 0 1700000000000, okFrameAt 1 1700000001500] initialApp) = Inr 1700000000000"
  by (simp add: loop_okFrameAt detectHand_mode detectHand_lastSwitchTime
      detectHand_lastVideoTime okHand_isOk initialApp_def nextMode_def)


section \<open>Mode controller\<close>

text \<open>
  C8 (amended). The controller starts in JELLYFISH, a switch advances JELLYFISH, SNOW,
  RAIN, JELLYFISH, and three OK-gesture ticks in a row, each strictly more than 1500 ms
  after the previous switch, bring any mode back to itself.
\<close>

theorem mode_cycle_three:
  assumes "okFrame f1" and "okFrame f2" and "okFrame f3"
    and "videoTime f1 \<noteq> lastVideoTime st" and "videoTime f2 \<noteq> videoTime f1"
    and "videoTime f3 \<noteq> videoTime f2"
    and "1500 < dateNow f1 - lastSwitchTime st" and "1500 < dateNow f2 - dateNow f1"
    and "1500 < dateNow f3 - dateNow f2"
  shows "mode initialApp = JELLYFISH \<and>
         nextMode JELLYFISH = SNOW \<and> nextMode SNOW = RAIN \<and> nextMode RAIN = JELLYFISH \<and>
         (\<exists>s1 s2 s3. loop f1 st = Inr s1 \<and> mode s1 = nextMode (mode st) \<and>
                     loop f2 s1 = Inr s2 \<and> mode s2 = nextMode (mode s1) \<and>
                     loop f3 s2 = Inr s3 \<and> mode s3 = nextMode (mode s2) \<and>
                     loops [f1, f2, f3] st = Inr s3 \<and> mode s3 = mode st)"
proof -
  have ok: "isOkGesture (hd (detections f1))" "isOkGesture (hd (detections f2))"
    "isOkGesture (hd (detections f3))"
    using assms(1-3) by (auto simp: okFrame_def split: list.splits)
  define s1 where "s1 = detectHand (hd (detections f1)) (dateNow f1) (st\<lparr>lastVideoTime := videoTime f1\<rparr>)"
  define s2 where "s2 = detectHand (hd (detections f2)) (dateNow f2) (s1\<lparr>lastVideoTime := videoTime f2\<rparr>)"
  define s3 where "s3 = detectHand (hd (detections f3)) (dateNow f3) (s2\<lparr>lastVideoTime := videoTime f3\<rparr>)"
  have l1: "loop f1 st = Inr s1"
    unfolding s1_def using assms by (simp add: loop_okFrame)
  have p1: "mode s1 = nextMode (mode st)" "lastSwitchTime s1 = dateNow f1"
    "lastVideoTime s1 = videoTime f1"
    unfolding s1_def using assms ok
    by (simp_all add: detectHand_mode detectHand_lastSwitchTime detectHand_lastVideoTime)
  have l2: "loop f2 s1 = Inr s2"
    unfolding s2_def using assms p1 by (simp add: loop_okFrame)
  have p2: "mode s2 = nextMode (mode s1)" "lastSwitchTime s2 = dateNow f2"
    "lastVideoTime s2 = videoTime f2"
    unfolding s2_def using assms ok p1
    by (simp_all add: detectHand_mode detectHand_lastSwitchTime detectHand_lastVideoTime)
  have l3: "loop f3 s2 = Inr s3"
    unfolding s3_def using assms p2 by (simp add: loop_okFrame)
  have p3: "mode s3 = nextMode (mode s2)"
    unfolding s3_def using assms ok p2
    by (simp_all add: detectHand_mode)
  have cyc: "nextMode (nextMode (nextMode (mode st))) = mode st"
    by (cases "mode st") (simp_all add: nextMode_def)
  have "loops [f1, f2, f3] st = Inr s3"
    by (simp add: l1 l2 l3)
  moreover have "mode s3 = mode st"
    using p1 p2 p3 cyc by simp
  moreover have "mode initialApp = JELLYFISH" "nextMode JELLYFISH = SNOW"
    "nextMode SNOW = RAIN" "nextMode RAIN = JELLYFISH"
    by (simp_all add: initialApp_def nextMode_def)
  ultimately show ?thesis
    using l1 l2 l3 p1(1) p2(1) p3 by blast
qed

theorem mode_cycle_three_witness:
  "\<exists>s. loops [okFrameAt 0 1700000000000, okFrameAt 1 1700000002000, okFrameAt 2 1700000004000]
          initialApp = Inr s \<and> mode s = JELLYFISH"
  using mode_cycle_three [of "okFrameAt 0 1700000000000" "okFrameAt 1 1700000002000"
      "okFrameAt 2 1700000004000" initialApp]
    okFrameAt_ok [of 0 1700000000000] okFrameAt_ok [of 1 1700000002000]
    okFrameAt_ok [of 2 1700000004000]
  by (auto simp: okFrameAt_def initialApp_def)

text \<open>
  C8 as stated fails for gestures exactly 1500 ms apart: from JELLYFISH the first is
  taken, the second is ignored and the third is taken, so the controller ends in RAIN.
\<close>

theorem mode_cycle_at_1500_counterexample:
  "(1500::int) \<le> 1700000000000 - lastSwitchTime initialApp \<and>
   (1500::int) \<le> 1700000001500 - 1700000000000 \<and>
   (1500::int) \<le> 1700000003000 - 1700000001500 \<and>
   mode initialApp = JELLYFISH \<and>
   map_sum id mode
     (loops [okFrameAt 0 1700000000000, okFrameAt 1 1700000001500, okFrameAt 2 1700000003000]
        initialApp) = Inr RAIN"
  by (simp add: loop_okFrameAt detectHand_mode detectHand_lastSwitchTime
      detectHand_lastVideoTime okHand_isOk initialApp_def nextMode_def)

text \<open>
  C7. Every change of mode, by external selection or by an accepted gesture, leaves the
  Visualizer with empty particle, ripple and splash collections, the edge-trigger flag
  cleared and no snow ground.
\<close>

theorem mode_transition_resets:
  "(m \<noteq> mode st \<longrightarrow>
      mode (setMode m st) = m \<and> visualizer (setMode m st) = initialVisualizer) \<and>
   (okFrame f \<and> videoTime f \<noteq> lastVideoTime st \<and> 1500 < dateNow f - lastSwitchTime st \<longrightarrow>
      (\<exists>st'. loop f st = Inr st' \<and> mode st' \<noteq> mode st \<and>
             visualizer st' = initialVisualizer))"
proof (intro conjI impI)
  assume "m \<noteq> mode st"
  then show "mode (setMode m st) = m" by (simp add: setMode_def)
  from \<open>m \<noteq> mode st\<close> show "visualizer (setMode m st) = initialVisualizer"
    by (simp add: setMode_def resetSystems_def initialVisualizer_def)
next
  assume a: "okFrame f \<and> videoTime f \<noteq> lastVideoTime st \<and> 1500 < dateNow f - lastSwitchTime st"
  then have ok: "isOkGesture (hd (detections f))"
    by (auto simp: okFrame_def split: list.splits)
  from a ok show "\<exists>st'. loop f st = Inr st' \<and> mode st' \<noteq> mode st \<and>
      visualizer st' = initialVisualizer"
    by (simp add: loop_okFrame detectHand_mode detectHand_visualizer nextMode_neq
        resetSystems_def initialVisualizer_def)
qed

theorem mode_transition_resets_witness:
  "visualizer busyApp \<noteq> initialVisualizer \<and> mode busyApp = RAIN \<and>
   mode (setMode SNOW busyApp) = SNOW \<and>
   visualizer (setMode SNOW busyApp) = initialVisualizer \<and>
   (\<exists>st'. loop (okFrameAt 1 1700000001501) busyApp = Inr st' \<and> mode st' \<noteq> RAIN \<and>
          visualizer st' = initialVisualizer)"
  using mode_transition_resets [of SNOW busyApp "okFrameAt 1 1700000001501"]
        okFrameAt_ok [of 1 1700000001501]
  by (auto simp: okFrameAt_def busyApp_def initialApp_def busyVisualizer_def
      initialVisualizer_def)


section \<open>Frames without a hand\<close>

text \<open>
  C10. On a detection tick without a hand the pose keeps its previous x, y, isPinching and
  pinchDistance; isPresent becomes false, the landmarks are cleared and no tab is hovered.
\<close>

theorem no_hand_retains_pose:
  assumes "videoReady f" and "videoTime f \<noteq> lastVideoTime st" and "detections f = []"
  shows "\<exists>st'. loop f st = Inr st' \<and>
           hd_x (handData st') = hd_x (handData st) \<and>
           hd_y (handData st') = hd_y (handData st) \<and>
           isPinching (handData st') = isPinching (handData st) \<and>
           pinchDistance (handData st') = pinchDistance (handData st) \<and>
           isPresent (handData st') = False \<and>
           landmarks (handData st') = None \<and>
           hoveredTab st' = None"
  using assms by (simp add: loop_def)

theorem no_hand_retains_pose_witness:
  "\<exists>s1 s2. loop (okFrameAt 0 1700000000000) initialApp = Inr s1 \<and>
           hd_x (handData s1) = 0.5 \<and> hd_y (handData s1) = 0.9 \<and>
           isPinching (handData s1) \<and> isPresent (handData s1) \<and>
           landmarks (handData s1) = Some okHand \<and>
           loop (emptyFrameAt 1 1700000000040) s1 = Inr s2 \<and>
           hd_x (handData s2) = 0.5 \<and> hd_y (handData s2) = 0.9 \<and>
           isPinching (handData s2) \<and> pinchDistance (handData s2) = 0 \<and>
           \<not> isPresent (handData s2) \<and> landmarks (handData s2) = None \<and>
           hoveredTab s2 = None"
proof -
  define s1 where "s1 = detectHand okHand 1700000000000 (initialApp\<lparr>lastVideoTime := 0\<rparr>)"
  have l1: "loop (okFrameAt 0 1700000000000) initialApp = Inr s1"
    unfolding s1_def by (simp add: loop_okFrameAt initialApp_def)
  have k: "okHand ! 5 = pt 0.5 0.9" "okHand ! 9 = pt 0.5 0.9" "okHand ! 13 = pt 0.5 0.9"
    "okHand ! 17 = pt 0.5 0.9"
    by (simp_all add: okHand_def nth_list_update)
  have h1: "handData s1 = \<lparr>hd_x = 0.5, hd_y = 0.9, isPinching = True, pinchDistance = 0,
      isPresent = True, landmarks = Some okHand\<rparr>"
    unfolding s1_def
    by (simp add: detectHand_def Let_def okHand_pinch centroidX_def centroidY_def okHand_nth k
        pt_def)
  have v1: "lastVideoTime s1 = 0"
    unfolding s1_def by (simp add: detectHand_lastVideoTime)
  show ?thesis
    using no_hand_retains_pose [of "emptyFrameAt 1 1700000000040" s1] l1 h1 v1
    by (auto simp: emptyFrameAt_def)
qed


section \<open>Jellyfish simulation\<close>

lemma spawnJellyfish_states:
  "map j_state (spawnJellyfish n r k hx hy ps) = map j_state ps @ replicate n FOLLOWING"
proof (induction n arbitrary: k ps)
  case 0
  then show ?case by simp
next
  case (Suc n)
  show ?case
    by (simp add: Suc.IH newJellyfish_def Let_def replicate_append_same)
qed

lemma releaseAll_states:
  "map j_state (fst (releaseAll r k ps)) = replicate (length ps) FREE"
proof (induction ps arbitrary: k)
  case Nil
  then show ?case by simp
next
  case (Cons p ps)
  show ?case
  proof (cases "j_state p")
    case FOLLOWING
    then show ?thesis
      using Cons.IH [of "k + 2"] by (simp add: Let_def split_beta)
  next
    case FREE
    then show ?thesis
      using Cons.IH [of k] by (simp add: Let_def split_beta)
  qed
qed

lemma updateJellyfish_state:
  "j_state (fst (updateJellyfish r k time hx hy w h jelly)) = j_state jelly"
  by (simp add: updateJellyfish_def moveJellyfish_def emitBubble_def Let_def split_beta)

lemma updateAllJellyfish_states:
  "map j_state (fst (updateAllJellyfish r k time hx hy w h ps)) = map j_state ps"
proof (induction ps arbitrary: k)
  case Nil
  then show ?case by simp
next
  case (Cons p ps)
  show ?case
    by (simp add: split_beta Let_def Cons.IH updateJellyfish_state)
qed

lemma renderJellyfish_states:
  "map j_state (fst (renderJellyfish t st)) =
     (if releasing t st then replicate (length (fst st)) FREE
      else map j_state (fst st) @ replicate (spawned t st) FOLLOWING)"
proof -
  have open_present: "isOpenHand (hand t) \<Longrightarrow> isPresent (hand t)"
    by (simp add: isOpenHand_def Let_def)
  show ?thesis
    using open_present
    by (auto simp: renderJellyfish_def spawnPhase_def releasePhase_def updatePhase_def
        releasing_def spawned_def Let_def split_beta
        updateAllJellyfish_states releaseAll_states spawnJellyfish_states)
qed

lemma renderJellyfish_wasOpen: "snd (renderJellyfish t st) = isOpenHand (hand t)"
  by (simp add: renderJellyfish_def Let_def split_beta)

lemma renderJellyfish_length:
  "length (fst (renderJellyfish t st)) = length (fst st) + spawned t st"
proof -
  have "length (map j_state (fst (renderJellyfish t st))) = length (fst st) + spawned t st"
    unfolding renderJellyfish_states
    by (auto simp: releasing_def spawned_def isOpenHand_def Let_def)
  then show ?thesis by simp
qed

lemma spawnCount_range:
  assumes "0 \<le> (c::real)" and "c < 1"
  shows "nat \<lfloor>c * 2\<rfloor> + 3 \<le> 4"
proof -
  have "\<lfloor>c * 2\<rfloor> < 2" using assms by (simp add: floor_less_iff)
  then show ?thesis by linarith
qed

lemma spawned_le:
  assumes "0 \<le> rnd t 0" and "rnd t 0 < 1"
  shows "spawned t st \<le> 4"
  using spawnCount_range [OF assms] by (simp add: spawned_def)

lemma spawned_guard: "20 \<le> length (fst st) \<Longrightarrow> spawned t st = 0"
  by (simp add: spawned_def)


lemma jellyfishTicks_append:
  "jellyfishTicks (ts @ us) st = jellyfishTicks us (jellyfishTicks ts st)"
  by (induction ts arbitrary: st) simp_all

text \<open>
  C1 (amended). Whatever the ticks and the random draws in [0, 1), the number of live
  creatures never exceeds 23: a batch is spawned only while fewer than 20 are alive, and
  a batch has 3 or 4 creatures.
\<close>

theorem jellyfish_count_bound:
  assumes "\<forall>t \<in> set ts. \<forall>k. 0 \<le> rnd t k \<and> rnd t k < 1"
    and "length (fst st) \<le> 23"
  shows "length (fst (jellyfishTicks ts st)) \<le> 23"
  using assms
proof (induction ts arbitrary: st)
  case Nil
  then show ?case by simp
next
  case (Cons t ts)
  have r: "0 \<le> rnd t 0" "rnd t 0 < 1"
    using Cons.prems(1) by simp_all
  have "length (fst (renderJellyfish t st)) \<le> 23"
  proof (cases "20 \<le> length (fst st)")
    case True
    then show ?thesis
      using Cons.prems(2) by (simp add: renderJellyfish_length spawned_guard)
  next
    case False
    then show ?thesis
      using spawned_le [OF r, of st] by (simp add: renderJellyfish_length)
  qed
  then show ?case
    using Cons.IH [of "renderJellyfish t st"] Cons.prems(1) by simp
qed

lemma openHand_open: "isOpenHand openHand" "\<not> isOpenHand absentHand"
  by (simp_all add: isOpenHand_def openHand_def absentHand_def)

lemma spawnBurst_adds_three:
  assumes "length (fst st) < 20" and "\<not> snd st"
  shows "length (fst (jellyfishTicks spawnBurst st)) = length (fst st) + 3 \<and>
         \<not> snd (jellyfishTicks spawnBurst st)"
  using assms
  by (simp add: spawnBurst_def renderJellyfish_length renderJellyfish_wasOpen spawned_def
      tickWith_def openHand_open rndConst_def)

lemma spawnBursts_count:
  assumes "length (fst st) + 3 * n \<le> 21" and "\<not> snd st"
  shows "length (fst (jellyfishTicks (concat (replicate n spawnBurst)) st)) =
           length (fst st) + 3 * n"
  using assms
proof (induction n arbitrary: st)
  case 0
  then show ?case by simp
next
  case (Suc n)
  have lt: "length (fst st) < 20"
    using Suc.prems(1) by simp
  note b = spawnBurst_adds_three [OF lt Suc.prems(2)]
  show ?case
    using Suc.IH [of "jellyfishTicks spawnBurst st"] b Suc.prems(1)
    by (simp add: jellyfishTicks_append)
qed

lemma largeBurst_adds_four:
  assumes "length (fst st) < 20" and "\<not> snd st"
  shows "length (fst (jellyfishTicks largeBurst st)) = length (fst st) + 4 \<and>
         \<not> snd (jellyfishTicks largeBurst st)"
  using assms
  by (simp add: largeBurst_def renderJellyfish_length renderJellyfish_wasOpen spawned_def
      tickWith_def openHand_open rndConst_def)

lemma peakTicks_count: "length (fst (jellyfishTicks peakTicks ([], False))) = 23"
proof -
  define s1 where "s1 = jellyfishTicks largeBurst ([], False)"
  define s2 where "s2 = jellyfishTicks largeBurst s1"
  define s3 where "s3 = jellyfishTicks largeBurst s2"
  define s4 where "s4 = jellyfishTicks largeBurst s3"
  define s5 where "s5 = jellyfishTicks spawnBurst s4"
  define s6 where "s6 = jellyfishTicks largeBurst s5"
  have 1: "length (fst s1) = 4 \<and> \<not> snd s1"
    unfolding s1_def using largeBurst_adds_four [of "([], False)"] by simp
  have 2: "length (fst s2) = 8 \<and> \<not> snd s2"
    unfolding s2_def using largeBurst_adds_four [of s1] 1 by simp
  have 3: "length (fst s3) = 12 \<and> \<not> snd s3"
    unfolding s3_def using largeBurst_adds_four [of s2] 2 by simp
  have 4: "length (fst s4) = 16 \<and> \<not> snd s4"
    unfolding s4_def using largeBurst_adds_four [of s3] 3 by simp
  have 5: "length (fst s5) = 19 \<and> \<not> snd s5"
    unfolding s5_def using spawnBurst_adds_three [of s4] 4 by simp
  have 6: "length (fst s6) = 23"
    unfolding s6_def using largeBurst_adds_four [of s5] 5 by simp
  have "jellyfishTicks peakTicks ([], False) = s6"
    by (simp add: peakTicks_def jellyfishTicks_append eval_nat_numeral
        s1_def s2_def s3_def s4_def s5_def s6_def)
  then show ?thesis
    using 6 by simp
qed

theorem jellyfish_count_bound_witness:
  "length (fst (jellyfishTicks peakTicks ([], False))) \<le> 23 \<and>
   length (fst (jellyfishTicks peakTicks ([], False))) = 23"
proof -
  have "\<forall>t \<in> set peakTicks. \<forall>k. 0 \<le> rnd t k \<and> rnd t k < 1"
    by (simp add: peakTicks_def largeBurst_def spawnBurst_def tickWith_def rndConst_def)
  then have "length (fst (jellyfishTicks peakTicks ([], False))) \<le> 23"
    using jellyfish_count_bound [of peakTicks "([], False)"] by simp
  then show ?thesis
    using peakTicks_count by simp
qed

text \<open>
  C1 as stated fails: seven rising edges of the open hand with batches of three give 21
  live creatures, the seventh batch being spawned at a count of 18.
\<close>

theorem jellyfish_count_exceeds_20_counterexample:
  "length (fst (jellyfishTicks (concat (replicate 7 spawnBurst)) ([], False))) = 21 \<and>
   \<not> length (fst (jellyfishTicks (concat (replicate 7 spawnBurst)) ([], False))) \<le> 20"
  using spawnBursts_count [of "([], False)" 7] by simp

lemma releaseAll_length: "length (fst (releaseAll r k ps)) = length ps"
  using releaseAll_states [of r k ps] by (metis length_map length_replicate)

lemma releaseAll_nth_following:
  assumes "i < length ps" and "j_state (ps ! i) = FOLLOWING"
  shows "\<exists>a. fst (releaseAll r k ps) ! i =
           (ps ! i)\<lparr>j_state := FREE, j_vx := (r a - 0.5) * 6, j_vy := (r (a + 1) - 0.5) * 6\<rparr>"
  using assms
proof (induction ps arbitrary: k i)
  case Nil
  then show ?case by simp
next
  case (Cons p ps)
  show ?case
  proof (cases i)
    case 0
    then show ?thesis
      using Cons.prems by (auto simp: Let_def split_beta)
  next
    case (Suc j)
    then have j: "j < length ps" "j_state (ps ! j) = FOLLOWING"
      using Cons.prems by simp_all
    show ?thesis
    proof (cases "j_state p")
      case FOLLOWING
      then show ?thesis
        using Cons.IH [OF j, of "k + 2"] Suc by (simp add: Let_def split_beta)
    next
      case FREE
      then show ?thesis
        using Cons.IH [OF j, of k] Suc by (simp add: Let_def split_beta)
    qed
  qed
qed

lemma renderJellyfish_keeps_free:
  assumes "i < length (fst st)" and "j_state (fst st ! i) = FREE"
  shows "i < length (fst (renderJellyfish t st)) \<and>
         j_state (fst (renderJellyfish t st) ! i) = FREE"
proof -
  have len: "i < length (fst (renderJellyfish t st))"
    using assms(1) by (simp add: renderJellyfish_length)
  have "j_state (fst (renderJellyfish t st) ! i) = map j_state (fst (renderJellyfish t st)) ! i"
    using len by simp
  also have "\<dots> = FREE"
    unfolding renderJellyfish_states using assms by (simp add: nth_append)
  finally show ?thesis using len by simp
qed

lemma jellyfishTicks_keeps_free:
  assumes "i < length (fst st)" and "j_state (fst st ! i) = FREE"
  shows "i < length (fst (jellyfishTicks ts st)) \<and>
         j_state (fst (jellyfishTicks ts st) ! i) = FREE"
  using assms
proof (induction ts arbitrary: st)
  case Nil
  then show ?case by simp
next
  case (Cons t ts)
  show ?case
    using Cons.IH [of "renderJellyfish t st"] renderJellyfish_keeps_free [OF Cons.prems, of t]
    by simp
qed

lemma release_of_spawn:
  assumes "releasing t st"
  shows "releasePhase t (snd st) (spawnPhase t st) = releaseAll (rnd t) 0 (fst st)"
proof -
  have "\<not> isOpenHand (hand t)"
    using assms by (auto simp: releasing_def isOpenHand_def Let_def)
  then show ?thesis
    using assms by (simp add: releasePhase_def spawnPhase_def releasing_def Let_def)
qed

text \<open>
  C9 (amended). On a tick where the hand stops being open or is absent, every creature is
  FREE afterwards; the release block gives each creature that was FOLLOWING the velocity
  \<open>((r - 0.5) * 6, (r' - 0.5) * 6)\<close> for two successive draws \<open>r\<close>, \<open>r'\<close>, so both components are
  non-zero when no draw equals 0.5; and a creature that is FREE stays FREE, at the same
  index, through every later tick.
\<close>

theorem jellyfish_release:
  "(releasing t st \<longrightarrow>
      length (fst (renderJellyfish t st)) = length (fst st) \<and>
      (\<forall>p \<in> set (fst (renderJellyfish t st)). j_state p = FREE) \<and>
      (\<forall>i < length (fst st). j_state (fst st ! i) = FOLLOWING \<longrightarrow>
         (\<exists>a. fst (releasePhase t (snd st) (spawnPhase t st)) ! i =
                (fst st ! i)\<lparr>j_state := FREE, j_vx := (rnd t a - 0.5) * 6,
                               j_vy := (rnd t (a + 1) - 0.5) * 6\<rparr>)) \<and>
      ((\<forall>k. rnd t k \<noteq> 0.5) \<longrightarrow>
         (\<forall>i < length (fst st). j_state (fst st ! i) = FOLLOWING \<longrightarrow>
            j_vx (fst (releasePhase t (snd st) (spawnPhase t st)) ! i) \<noteq> 0 \<and>
            j_vy (fst (releasePhase t (snd st) (spawnPhase t st)) ! i) \<noteq> 0))) \<and>
   (\<forall>i < length (fst st). j_state (fst st ! i) = FREE \<longrightarrow>
      i < length (fst (jellyfishTicks ts st)) \<and>
      j_state (fst (jellyfishTicks ts st) ! i) = FREE)"
proof (intro conjI impI allI)
  assume rel: "releasing t st"
  have st: "map j_state (fst (renderJellyfish t st)) = replicate (length (fst st)) FREE"
    using rel by (simp add: renderJellyfish_states)
  show "length (fst (renderJellyfish t st)) = length (fst st)"
    using st by (metis length_map length_replicate)
  show "\<forall>p \<in> set (fst (renderJellyfish t st)). j_state p = FREE"
  proof
    fix p assume "p \<in> set (fst (renderJellyfish t st))"
    then have "j_state p \<in> set (map j_state (fst (renderJellyfish t st)))" by simp
    then show "j_state p = FREE" unfolding st by simp
  qed
  {
    fix i assume i: "i < length (fst st)" "j_state (fst st ! i) = FOLLOWING"
    show "\<exists>a. fst (releasePhase t (snd st) (spawnPhase t st)) ! i =
                (fst st ! i)\<lparr>j_state := FREE, j_vx := (rnd t a - 0.5) * 6,
                               j_vy := (rnd t (a + 1) - 0.5) * 6\<rparr>"
      using releaseAll_nth_following [OF i] by (simp add: release_of_spawn [OF rel])
  }
  {
    fix i assume nz: "\<forall>k. rnd t k \<noteq> 0.5"
      and i: "i < length (fst st)" "j_state (fst st ! i) = FOLLOWING"
    from releaseAll_nth_following [OF i, of "rnd t" 0] obtain a where
      a: "fst (releaseAll (rnd t) 0 (fst st)) ! i =
            (fst st ! i)\<lparr>j_state := FREE, j_vx := (rnd t a - 0.5) * 6,
                          j_vy := (rnd t (a + 1) - 0.5) * 6\<rparr>" by blast
    have "rnd t a \<noteq> 0.5" "rnd t (a + 1) \<noteq> 0.5" using nz by blast+
    then show "j_vx (fst (releasePhase t (snd st) (spawnPhase t st)) ! i) \<noteq> 0"
      and "j_vy (fst (releasePhase t (snd st) (spawnPhase t st)) ! i) \<noteq> 0"
      by (simp_all add: release_of_spawn [OF rel] a)
  }
next
  fix i assume "i < length (fst st)" "j_state (fst st ! i) = FREE"
  then show "i < length (fst (jellyfishTicks ts st))"
    and "j_state (fst (jellyfishTicks ts st) ! i) = FREE"
    using jellyfishTicks_keeps_free by blast+
qed

lemma absent_releasing: "releasing (tickWith absentHand c) st"
  by (simp add: releasing_def tickWith_def absentHand_def)

theorem jellyfish_release_witness:
  "list_all (\<lambda>p. j_state p = FREE)
     (fst (renderJellyfish (tickWith absentHand 0.25) ([followingJelly], True))) \<and>
   j_vx (fst (releasePhase (tickWith absentHand 0.25) True
              (spawnPhase (tickWith absentHand 0.25) ([followingJelly], True))) ! 0) \<noteq> 0 \<and>
   j_vy (fst (releasePhase (tickWith absentHand 0.25) True
              (spawnPhase (tickWith absentHand 0.25) ([followingJelly], True))) ! 0) \<noteq> 0 \<and>
   j_state (fst (jellyfishTicks spawnBurst ([followingJelly\<lparr>j_state := FREE\<rparr>], False)) ! 0) = FREE"
proof -
  have nz: "\<forall>k. rnd (tickWith absentHand 0.25) k \<noteq> 0.5"
    by (simp add: tickWith_def rndConst_def)
  have f: "j_state followingJelly = FOLLOWING"
    by (simp add: followingJelly_def)
  show ?thesis
    using jellyfish_release [of "tickWith absentHand 0.25" "([followingJelly], True)" "[]"]
      jellyfish_release [of "tickWith absentHand 0.25" "([followingJelly\<lparr>j_state := FREE\<rparr>], False)"
        spawnBurst]
      absent_releasing [of "0.25"] nz f
    by (simp add: list_all_iff)
qed

text \<open>
  C9 as stated fails when both draws are exactly 0.5: the released creature is given
  velocity (0, 0) and does not move on that tick.
\<close>

theorem jellyfish_release_zero_velocity_counterexample:
  "releasing (tickWith absentHand (1 / 2)) ([followingJelly], True) \<and>
   j_state followingJelly = FOLLOWING \<and>
   j_state (hd (fst (releasePhase (tickWith absentHand (1 / 2)) True
                     (spawnPhase (tickWith absentHand (1 / 2)) ([followingJelly], True))))) = FREE \<and>
   j_vx (hd (fst (releasePhase (tickWith absentHand (1 / 2)) True
                  (spawnPhase (tickWith absentHand (1 / 2)) ([followingJelly], True))))) = 0 \<and>
   j_vy (hd (fst (releasePhase (tickWith absentHand (1 / 2)) True
                  (spawnPhase (tickWith absentHand (1 / 2)) ([followingJelly], True))))) = 0 \<and>
   j_x (hd (fst (renderJellyfish (tickWith absentHand (1 / 2)) ([followingJelly], True)))) =
     j_x followingJelly \<and>
   j_y (hd (fst (renderJellyfish (tickWith absentHand (1 / 2)) ([followingJelly], True)))) =
     j_y followingJelly"
proof -
  let ?t = "tickWith absentHand (1 / 2)"
  let ?st = "([followingJelly], True)"
  have rel: "releasing ?t ?st"
    by (rule absent_releasing)
  have r: "releasePhase ?t True (spawnPhase ?t ?st) = releaseAll (rnd ?t) 0 [followingJelly]"
    using release_of_spawn [OF rel] by simp
  have ra: "releaseAll (rnd ?t) 0 [followingJelly] =
              ([followingJelly\<lparr>j_state := FREE, j_vx := 0, j_vy := 0\<rparr>], 2)"
    by (simp add: followingJelly_def tickWith_def rndConst_def)
  have t0: "real_of_int (tickNow ?t) / 1000 = 0"
    by (simp add: tickWith_def)
  have pos: "j_x (hd (fst (renderJellyfish ?t ?st))) = j_x followingJelly"
    "j_y (hd (fst (renderJellyfish ?t ?st))) = j_y followingJelly"
    unfolding renderJellyfish_def Let_def snd_conv r ra updatePhase_def t0
    by (simp_all add: updateJellyfish_def moveJellyfish_def emitBubble_def
        followingJelly_def tickWith_def Let_def split_beta)
  have vel: "j_state (hd (fst (releasePhase ?t True (spawnPhase ?t ?st)))) = FREE"
    "j_vx (hd (fst (releasePhase ?t True (spawnPhase ?t ?st)))) = 0"
    "j_vy (hd (fst (releasePhase ?t True (spawnPhase ?t ?st)))) = 0"
    unfolding r ra by simp_all
  have "j_state followingJelly = FOLLOWING"
    by (simp add: followingJelly_def)
  then show ?thesis
    using rel pos vel by blast
qed


section \<open>Snow simulation\<close>

lemma createSnowflake_size:
  assumes "0 \<le> r (k + 3)"
  shows "1 \<le> f_size (createSnowflake r k x y)"
  using assms by (simp add: createSnowflake_def Let_def)

lemma ambientSnow_sizes:
  assumes "\<forall>k. 0 \<le> r k" and "\<forall>p \<in> set ps. 1 \<le> f_size p"
  shows "\<forall>p \<in> set (ambientSnow n r k w ps). 1 \<le> f_size p"
  using assms(2)
proof (induction n arbitrary: k ps)
  case 0
  then show ?case by simp
next
  case (Suc n)
  have "1 \<le> f_size (createSnowflake r (k + 1) (r k * w) (- 20))"
    using assms(1) by (simp add: createSnowflake_size)
  then show ?case
    using Suc.prems by (auto intro!: Suc.IH)
qed

lemma handSnow_sizes:
  assumes "\<forall>k. 0 \<le> r k" and "\<forall>p \<in> set ps. 1 \<le> f_size p"
  shows "\<forall>p \<in> set (handSnow n r k hx hy ps). 1 \<le> f_size p"
  using assms(2)
proof (induction n arbitrary: k ps)
  case 0
  then show ?case by simp
next
  case (Suc n)
  have "1 \<le> f_size (createSnowflake r (k + 2) (hx + (r k - 0.5) * 60) (hy + (r (k + 1) - 0.5) * 60))"
    using assms(1) by (simp add: createSnowflake_size)
  then show ?case
    using Suc.prems by (auto intro!: Suc.IH)
qed

lemma moveSnowflake_size: "f_size (moveSnowflake p) = f_size p"
  by (simp add: moveSnowflake_def)

lemma within_update:
  assumes "heightsWithin h g" and "0 \<le> v" and "v \<le> real h"
  shows "heightsWithin h (g[i := v])"
proof -
  have "set (g[i := v]) \<subseteq> insert v (set g)"
    by (rule set_update_subset_insert)
  then show ?thesis
    using assms unfolding heightsWithin_def list_all_iff by auto
qed

lemma within_nth: "heightsWithin h g \<Longrightarrow> i < length g \<Longrightarrow> 0 \<le> g ! i \<and> g ! i \<le> real h"
  by (simp add: heightsWithin_def list_all_length)

lemma fold_preserves:
  assumes "P g" and "\<And>x g. x \<in> set xs \<Longrightarrow> P g \<Longrightarrow> P (f x g)"
  shows "P (fold f xs g)"
  using assms by (induction xs arbitrary: g) simp_all

lemma moundStep_within:
  assumes "heightsWithin h g" and "0 \<le> sz" and "\<bar>r\<bar> \<le> radius"
  shows "heightsWithin h (moundStep w gx sz radius r g)"
proof (cases "gx + r \<ge> 0 \<and> gx + r < int w \<and> nat (gx + r) < length g")
  case True
  define c where "c = (1 - real_of_int \<bar>r\<bar> / real_of_int radius) * (sz * 0.5)"
  define nv where "nv = (if g ! nat (gx + r) - c < 0 then 0 else g ! nat (gx + r) - c)"
  have frac: "real_of_int \<bar>r\<bar> / real_of_int radius \<le> 1"
  proof (cases "radius = 0")
    case True
    then show ?thesis by simp
  next
    case False
    then have "0 < real_of_int radius" and "real_of_int \<bar>r\<bar> \<le> real_of_int radius"
      using assms(3) by simp_all
    then show ?thesis by (simp add: divide_le_eq_1)
  qed
  have "0 \<le> sz * 0.5"
    using assms(2) by simp
  then have c: "0 \<le> c"
    unfolding c_def using frac by (intro mult_nonneg_nonneg) simp_all
  have b: "0 \<le> g ! nat (gx + r)" "g ! nat (gx + r) \<le> real h"
    using within_nth [OF assms(1)] True by simp_all
  have nv: "0 \<le> nv" "nv \<le> real h"
    using b c by (simp_all add: nv_def)
  have "moundStep w gx sz radius r g = g[nat (gx + r) := nv]"
    using True by (simp add: moundStep_def Let_def c_def nv_def)
  then show ?thesis
    using within_update [OF assms(1) nv] by simp
next
  case False
  then show ?thesis
    using assms(1) by (auto simp: moundStep_def Let_def)
qed

lemma addMound_within:
  assumes "heightsWithin h g" and "0 \<le> sz"
  shows "heightsWithin h (addMound w gx sz g)"
  unfolding addMound_def Let_def
proof (rule fold_preserves [where P = "heightsWithin h"])
  show "heightsWithin h g" by (rule assms(1))
next
  fix r g'
  assume "r \<in> set [- \<lfloor>sz * 2\<rfloor>..\<lfloor>sz * 2\<rfloor>]" and "heightsWithin h g'"
  then show "heightsWithin h (moundStep w gx sz \<lfloor>sz * 2\<rfloor> r g')"
    using assms(2) by (intro moundStep_within) auto
qed

lemma meltStep_within:
  assumes "heightsWithin h g" and "\<bar>dx\<bar> \<le> 50"
  shows "heightsWithin h (meltStep w h hx dx g)"
proof (cases "hx + dx \<ge> 0 \<and> hx + dx < int w \<and> nat (hx + dx) < length g")
  case True
  define power where "power = 3 * (1 - real_of_int \<bar>dx\<bar> / 50)"
  define nv where "nv = min (real h) (g ! nat (hx + dx) + power)"
  have p: "0 \<le> power"
    using assms(2) by (simp add: power_def)
  have b: "0 \<le> g ! nat (hx + dx)"
    using within_nth [OF assms(1)] True by simp
  have nv: "0 \<le> nv" "nv \<le> real h"
    using b p by (simp_all add: nv_def)
  have "meltStep w h hx dx g = g[nat (hx + dx) := nv]"
    using True by (simp add: meltStep_def Let_def power_def nv_def)
  then show ?thesis
    using within_update [OF assms(1) nv] by simp
next
  case False
  then show ?thesis
    using assms(1) by (auto simp: meltStep_def Let_def)
qed

lemma groundWithin_Some: "groundWithin h (Some g) = heightsWithin h g"
  by (simp add: groundWithin_def)

lemma groundWithin_None: "groundWithin h None"
  by (simp add: groundWithin_def)

lemma meltSnow_within:
  assumes "groundWithin (canvasHeight t) ground"
  shows "groundWithin (canvasHeight t) (meltSnow t ground)"
proof (cases ground)
  case None
  then show ?thesis by (simp add: meltSnow_def groundWithin_None)
next
  case (Some g)
  then have w: "heightsWithin (canvasHeight t) g"
    using assms by (simp add: groundWithin_Some)
  have "heightsWithin (canvasHeight t)
          (fold (meltStep (canvasWidth t) (canvasHeight t) hx) [- 50..50] g)" for hx
  proof (rule fold_preserves [where P = "heightsWithin (canvasHeight t)"])
    show "heightsWithin (canvasHeight t) g" by (rule w)
  next
    fix dx g'
    assume "dx \<in> set [- 50..50]" and "heightsWithin (canvasHeight t) g'"
    then show "heightsWithin (canvasHeight t) (meltStep (canvasWidth t) (canvasHeight t) hx dx g')"
      by (intro meltStep_within) auto
  qed
  then show ?thesis
    using Some w by (simp add: meltSnow_def Let_def groundWithin_Some)
qed

lemma updateSnowflakes_inv:
  assumes "\<forall>p \<in> set ps. 1 \<le> f_size p" and "groundWithin h ground"
  shows "(\<forall>p \<in> set (fst (updateSnowflakes w h ps ground)). 1 \<le> f_size p) \<and>
         groundWithin h (snd (updateSnowflakes w h ps ground))"
  using assms(1)
proof (induction ps)
  case Nil
  then show ?case using assms(2) by simp
next
  case (Cons q qs)
  obtain qs' g1 where u: "updateSnowflakes w h qs ground = (qs', g1)"
    by (cases "updateSnowflakes w h qs ground")
  have ih: "\<forall>p \<in> set qs'. 1 \<le> f_size p" "groundWithin h g1"
    using Cons.IH Cons.prems u by simp_all
  have sz: "1 \<le> f_size (moveSnowflake q)"
    using Cons.prems by (simp add: moveSnowflake_size)
  have m: "groundWithin h (map_option (addMound w gx (f_size (moveSnowflake q))) g1)" for gx
  proof (cases g1)
    case None
    then show ?thesis by (simp add: groundWithin_None)
  next
    case (Some g)
    then show ?thesis
      using ih(2) sz by (simp add: groundWithin_Some addMound_within)
  qed
  show ?case
    using ih sz m by (simp add: u Let_def)
qed

lemma initSnowGround_within:
  assumes "groundWithin (canvasHeight t) ground"
  shows "groundWithin (canvasHeight t) (initSnowGround t ground)"
  using assms
  by (auto simp: initSnowGround_def groundWithin_def heightsWithin_def list_all_iff
      split: option.splits)

lemma renderSnow_inv:
  assumes "\<forall>k. 0 \<le> rnd t k"
    and "\<forall>p \<in> set (fst st). 1 \<le> f_size p" and "groundWithin (canvasHeight t) (snd st)"
  shows "(\<forall>p \<in> set (fst (renderSnow t st)). 1 \<le> f_size p) \<and>
         groundWithin (canvasHeight t) (snd (renderSnow t st))"
proof -
  define ps1 where "ps1 = ambientSnow 2 (rnd t) 0 (real (canvasWidth t)) (fst st)"
  define ps2 where "ps2 = (if isOpenHand (hand t)
      then handSnow 3 (rnd t) 14 (hd_x (hand t) * real (canvasWidth t))
             (hd_y (hand t) * real (canvasHeight t)) ps1 else ps1)"
  have s1: "\<forall>p \<in> set ps1. 1 \<le> f_size p"
    unfolding ps1_def using assms(1,2) by (rule ambientSnow_sizes)
  have s2: "\<forall>p \<in> set ps2. 1 \<le> f_size p"
    unfolding ps2_def using handSnow_sizes [OF assms(1) s1] s1 by simp
  note u = updateSnowflakes_inv [OF s2 assms(3), of "canvasWidth t"]
  have r: "renderSnow t st =
      (fst (updateSnowflakes (canvasWidth t) (canvasHeight t) ps2 (snd st)),
       meltSnow t (snd (updateSnowflakes (canvasWidth t) (canvasHeight t) ps2 (snd st))))"
    by (simp add: renderSnow_def Let_def split_beta ps1_def ps2_def)
  show ?thesis
    unfolding r using u meltSnow_within by simp
qed

lemma snowFrame_inv:
  assumes "\<forall>k. 0 \<le> rnd t k"
    and "\<forall>p \<in> set (fst st). 1 \<le> f_size p" and "groundWithin (canvasHeight t) (snd st)"
  shows "(\<forall>p \<in> set (fst (snowFrame t st)). 1 \<le> f_size p) \<and>
         groundWithin (canvasHeight t) (snd (snowFrame t st))"
  unfolding snowFrame_def
  using renderSnow_inv [OF assms(1), of "(fst st, initSnowGround t (snd st))"]
    assms(2) initSnowGround_within [OF assms(3)]
  by simp

lemma snowFrames_inv:
  assumes "\<forall>t \<in> set ts. canvasHeight t = H \<and> (\<forall>k. 0 \<le> rnd t k \<and> rnd t k < 1)"
    and "\<forall>p \<in> set (fst st). 1 \<le> f_size p"
    and "groundWithin H (snd st)"
  shows "groundWithin H (snd (snowFrames ts st))"
  using assms
proof (induction ts arbitrary: st)
  case Nil
  then show ?case by simp
next
  case (Cons t ts)
  have t: "canvasHeight t = H" "\<forall>k. 0 \<le> rnd t k"
    using Cons.prems(1) by simp_all
  have "(\<forall>p \<in> set (fst (snowFrame t st)). 1 \<le> f_size p) \<and>
        groundWithin H (snd (snowFrame t st))"
    using snowFrame_inv [OF t(2), of st] Cons.prems(2,3) t(1) by simp
  then show ?case
    using Cons.IH [of "snowFrame t st"] Cons.prems(1) by simp
qed

lemma addMound_example: "addMound 4 1 1 [100, 50, 0, 100] = [99.75, 49.5, 0, 100]"
  by code_simp

lemma meltSnow_example:
  "meltSnow (narrowTick lowHand 0) (Some [99.75, 49.5, 0, 100]) = Some [100, 52.44, 3, 100]"
  by code_simp

text \<open>
  C5. Over any sequence of snow frames on a canvas of fixed height \<open>H\<close>, with landing
  mounds and hand melting as they occur, every entry of the ground height field stays
  in \<open>[0, H]\<close>, provided it starts there (or the ground is not yet created).
\<close>

theorem snow_ground_bounds:
  "(heightsWithin H g \<and> 1 \<le> sz \<longrightarrow> heightsWithin H (addMound w gx sz g)) \<and>
   (groundWithin (canvasHeight t) ground \<longrightarrow>
      groundWithin (canvasHeight t) (meltSnow t ground)) \<and>
   ((\<forall>t \<in> set ts. canvasHeight t = H \<and> (\<forall>k. 0 \<le> rnd t k \<and> rnd t k < 1)) \<and>
    (\<forall>p \<in> set (fst st). 1 \<le> f_size p) \<and> groundWithin H (snd st) \<longrightarrow>
      groundWithin H (snd (snowFrames ts st)))"
proof (intro conjI impI)
  assume "heightsWithin H g \<and> 1 \<le> sz"
  then show "heightsWithin H (addMound w gx sz g)"
    by (intro addMound_within) simp_all
next
  assume "groundWithin (canvasHeight t) ground"
  then show "groundWithin (canvasHeight t) (meltSnow t ground)"
    by (rule meltSnow_within)
next
  assume "(\<forall>t \<in> set ts. canvasHeight t = H \<and> (\<forall>k. 0 \<le> rnd t k \<and> rnd t k < 1)) \<and>
    (\<forall>p \<in> set (fst st). 1 \<le> f_size p) \<and> groundWithin H (snd st)"
  then show "groundWithin H (snd (snowFrames ts st))"
    by (intro snowFrames_inv) simp_all
qed

theorem snow_ground_bounds_witness:
  "addMound 4 1 1 [100, 50, 0, 100] = [99.75, 49.5, 0, 100] \<and>
   heightsWithin 100 (addMound 4 1 1 [100, 50, 0, 100]) \<and>
   meltSnow (narrowTick lowHand 0) (Some [99.75, 49.5, 0, 100]) = Some [100, 52.44, 3, 100] \<and>
   groundWithin 100 (meltSnow (narrowTick lowHand 0) (Some [99.75, 49.5, 0, 100])) \<and>
   groundWithin 100
     (snd (snowFrames [narrowTick lowHand 0, narrowTick absentHand 0.5]
             ([landingFlake], Some [100, 50, 0, 100])))"
proof -
  have ts: "\<forall>t \<in> set [narrowTick lowHand 0, narrowTick absentHand 0.5].
          canvasHeight t = 100 \<and> (\<forall>k. 0 \<le> rnd t k \<and> rnd t k < 1)"
    by (simp add: narrowTick_def rndConst_def)
  have ps: "\<forall>p \<in> set (fst ([landingFlake], Some [100, 50, 0, 100::real])). 1 \<le> f_size p"
    by (simp add: landingFlake_def)
  have g: "groundWithin 100 (snd ([landingFlake], Some [100, 50, 0, 100]))"
    "heightsWithin 100 [100, 50, 0, 100]"
    "groundWithin (canvasHeight (narrowTick lowHand 0)) (Some [99.75, 49.5, 0, 100])"
    by (simp_all add: groundWithin_def heightsWithin_def narrowTick_def)
  have h: "canvasHeight (narrowTick lowHand 0) = 100"
    by (simp add: narrowTick_def)
  show ?thesis
    using snow_ground_bounds [of 100 "[100, 50, 0, 100]" 1 4 1 "narrowTick lowHand 0"
        "Some [99.75, 49.5, 0, 100]" "[narrowTick lowHand 0, narrowTick absentHand 0.5]"
        "([landingFlake], Some [100, 50, 0, 100])"]
      ts ps g addMound_example meltSnow_example
    unfolding h by simp
qed

text \<open>
  C2 (amended). A flake is large exactly when its first draw exceeds 0.95 and small
  otherwise; a large flake falls between 2.2 and 3.7 per tick, a small one between 0.3
  and 1.1, so every large flake falls faster than every small flake.
\<close>

theorem snowflake_classes:
  assumes "\<forall>k. 0 \<le> r k \<and> r k < 1" and "\<forall>k. 0 \<le> r' k \<and> r' k < 1"
  shows "(\<not> f_isParticle (createSnowflake r k x y)) = (r k > 0.95) \<and>
         (\<not> f_isParticle (createSnowflake r k x y) \<longrightarrow>
            2.2 \<le> f_vy (createSnowflake r k x y) \<and> f_vy (createSnowflake r k x y) < 3.7) \<and>
         (f_isParticle (createSnowflake r k x y) \<longrightarrow>
            0.3 \<le> f_vy (createSnowflake r k x y) \<and> f_vy (createSnowflake r k x y) < 1.1) \<and>
         (\<not> f_isParticle (createSnowflake r k x y) \<and>
          f_isParticle (createSnowflake r' k' x' y') \<longrightarrow>
            f_vy (createSnowflake r' k' x' y') < f_vy (createSnowflake r k x y))"
proof -
  have a: "0 \<le> r (k + 2)" "r (k + 2) < 1" "0 \<le> r' (k' + 2)" "r' (k' + 2) < 1"
    using assms by simp_all
  show ?thesis
    using a by (simp add: createSnowflake_def Let_def)
qed

theorem snowflake_classes_witness:
  "\<not> f_isParticle (createSnowflake (rndConst 0.96) 0 0 (- 20)) \<and>
   f_isParticle (createSnowflake (rndConst 0.5) 0 0 (- 20)) \<and>
   f_vy (createSnowflake (rndConst 0.5) 0 0 (- 20)) <
     f_vy (createSnowflake (rndConst 0.96) 0 0 (- 20))"
proof -
  have "\<forall>k. 0 \<le> rndConst 0.96 k \<and> rndConst 0.96 k < 1"
    and "\<forall>k. 0 \<le> rndConst 0.5 k \<and> rndConst 0.5 k < 1"
    by (simp_all add: rndConst_def)
  then show ?thesis
    using snowflake_classes [of "rndConst 0.96" "rndConst 0.5" 0 0 "- 20" 0 0 "- 20"]
      snowflake_classes [of "rndConst 0.5" "rndConst 0.5" 0 0 "- 20" 0 0 "- 20"]
    by (simp add: rndConst_def)
qed

text \<open>
  C2 as stated fails: a large flake with fall speed 3.64 is not slower than a small
  flake with fall speed 0.7.
\<close>

theorem snowflake_large_faster_counterexample:
  "\<not> f_isParticle (createSnowflake (rndConst 0.96) 0 0 (- 20)) \<and>
   f_isParticle (createSnowflake (rndConst 0.5) 0 0 (- 20)) \<and>
   f_vy (createSnowflake (rndConst 0.96) 0 0 (- 20)) = 3.64 \<and>
   f_vy (createSnowflake (rndConst 0.5) 0 0 (- 20)) = 0.7 \<and>
   \<not> f_vy (createSnowflake (rndConst 0.96) 0 0 (- 20)) <
       f_vy (createSnowflake (rndConst 0.5) 0 0 (- 20))"
  by (simp add: createSnowflake_def rndConst_def Let_def)


section \<open>Rain simulation\<close>

lemma updateDrops_drops:
  "fst (updateDrops r k wl qs rs) =
     map fall (filter (\<lambda>q. \<not> d_y q + d_speed q > wl) qs)"
  by (induction qs) (simp_all add: split_beta Let_def fall_def)

lemma updateDrops_ripples:
  "length (fst (fst (snd (updateDrops r k wl qs rs)))) =
     length (fst rs) + length (crossing wl qs)"
  by (induction qs) (simp_all add: split_beta Let_def crossing_def)

lemma updateDrops_splashes:
  "length (snd (fst (snd (updateDrops r k wl qs rs)))) =
     length (snd rs) + 3 * length (crossing wl qs)"
  by (induction qs) (simp_all add: split_beta Let_def crossing_def)

lemma absent_intensity: "\<not> isPresent (hand t) \<Longrightarrow> rainIntensity (hand t) = 0"
  by (simp add: rainIntensity_def isOpenHand_def Let_def)

lemma renderRain_fall:
  assumes "\<not> isPresent (hand t)" and "d_y d + d_speed d \<le> real (canvasHeight t) - 100"
  shows "renderRain t ([d], [], []) = ([fall d], [], [])"
  using assms
  by (simp add: renderRain_def absent_intensity handRipples_def Let_def fall_def)

lemma renderRain_cross:
  assumes "\<not> isPresent (hand t)" and "\<forall>k. 0 \<le> rnd t k"
    and "d_y d + d_speed d > real (canvasHeight t) - 100"
  shows "fst (renderRain t ([d], [], [])) = [] \<and>
         length (fst (snd (renderRain t ([d], [], [])))) = 1 \<and>
         length (snd (snd (renderRain t ([d], [], [])))) = 3"
proof -
  have u: "[0..<3] = [0, 1, 2]"
    by (simp add: upt_rec)
  have v: "\<not> 102 < - (rnd t j * 5)" for j
    using assms(2) [rule_format, of j] by simp
  show ?thesis
    using assms(1,3)
    by (simp add: renderRain_def absent_intensity handRipples_def Let_def u
        dropRipple_def dropSplash_def v)
qed

lemma rainTicks_fall:
  assumes "\<forall>t \<in> set ts. canvasHeight t = H \<and> \<not> isPresent (hand t)"
    and "0 \<le> d_speed d"
    and "d_y d + real (length ts) * d_speed d \<le> real H - 100"
  shows "rainTicks ts ([d], [], []) = ([d\<lparr>d_y := d_y d + real (length ts) * d_speed d\<rparr>], [], [])"
  using assms
proof (induction ts arbitrary: d)
  case Nil
  then show ?case by simp
next
  case (Cons t ts)
  have t: "canvasHeight t = H" "\<not> isPresent (hand t)"
    using Cons.prems(1) by simp_all
  have "0 \<le> real (length ts) * d_speed d"
    using Cons.prems(2) by simp
  then have one: "d_y d + d_speed d \<le> real (canvasHeight t) - 100"
    using Cons.prems(3) t(1) by (simp add: algebra_simps)
  have step: "renderRain t ([d], [], []) = ([fall d], [], [])"
    using renderRain_fall [OF t(2) one] .
  have rest: "d_y (fall d) + real (length ts) * d_speed (fall d) \<le> real H - 100"
    using Cons.prems(3) by (simp add: fall_def algebra_simps)
  have "rainTicks ts ([fall d], [], []) =
          ([(fall d)\<lparr>d_y := d_y (fall d) + real (length ts) * d_speed (fall d)\<rparr>], [], [])"
    using Cons.IH [of "fall d"] Cons.prems(1,2) rest by (simp add: fall_def)
  then show ?case
    by (simp add: step fall_def algebra_simps)
qed

lemma rainTicks_append: "rainTicks (ts @ us) st = rainTicks us (rainTicks ts st)"
  by (induction ts arbitrary: st) simp_all

lemma ticksToWater_before: "25 * real (ticksToWater H - 1) \<le> real H - 50 \<or> ticksToWater H = 1"
proof (cases "50 \<le> H")
  case True
  have "25 * ((H - 50) div 25) \<le> H - 50"
    by simp
  then have "real (25 * ((H - 50) div 25)) \<le> real (H - 50)"
    by (rule of_nat_mono)
  then show ?thesis
    using True by (simp add: ticksToWater_def)
next
  case False
  then show ?thesis by (simp add: ticksToWater_def)
qed

lemma ticksToWater_after: "real H - 50 < 25 * real (ticksToWater H)"
proof -
  have "H - 50 < 25 * ((H - 50) div 25 + 1)"
    by presburger
  then have "real (H - 50) < real (25 * ((H - 50) div 25 + 1))"
    by (rule of_nat_less_iff [THEN iffD2])
  moreover have "real H - 50 \<le> real (H - 50)"
    by simp
  ultimately show ?thesis
    by (simp add: ticksToWater_def)
qed

lemma scenario_falling:
  assumes "\<forall>t \<in> set ts. canvasHeight t = H \<and> \<not> isPresent (hand t)"
    and "d_y d = - 50" and "d_speed d = 25" and "length ts < ticksToWater H"
  shows "rainTicks ts ([d], [], []) = ([d\<lparr>d_y := - 50 + 25 * real (length ts)\<rparr>], [], [])"
proof (cases "ts = []")
  case True
  then show ?thesis using assms(2) by simp
next
  case False
  then have "1 \<le> length ts"
    by (cases ts) simp_all
  then have n: "ticksToWater H \<noteq> 1" and le: "length ts \<le> ticksToWater H - 1"
    using assms(4) by simp_all
  have "25 * real (ticksToWater H - 1) \<le> real H - 50"
    using ticksToWater_before [of H] n by simp
  moreover have "real (length ts) \<le> real (ticksToWater H - 1)"
    using le by (rule of_nat_mono)
  ultimately have "d_y d + real (length ts) * d_speed d \<le> real H - 100"
    using assms(2,3) by simp
  then show ?thesis
    using rainTicks_fall [OF assms(1), of d] assms(2,3) by (simp add: mult.commute)
qed

lemma scenario_landing:
  assumes "\<forall>t \<in> set ts. canvasHeight t = H \<and> \<not> isPresent (hand t) \<and>
             (\<forall>k. 0 \<le> rnd t k \<and> rnd t k < 1)"
    and "d_y d = - 50" and "d_speed d = 25" and "length ts = ticksToWater H"
  shows "fst (rainTicks ts ([d], [], [])) = [] \<and>
         length (fst (snd (rainTicks ts ([d], [], [])))) = 1 \<and>
         length (snd (snd (rainTicks ts ([d], [], [])))) = 3"
proof -
  have "ts \<noteq> []"
    using assms(4) by (auto simp: ticksToWater_def)
  then obtain ts1 t where ts: "ts = ts1 @ [t]"
    by (metis rev_exhaust)
  have len: "length ts1 = ticksToWater H - 1" "length ts1 < ticksToWater H"
    using assms(4) ts by simp_all
  have t: "canvasHeight t = H" "\<not> isPresent (hand t)" "\<forall>k. 0 \<le> rnd t k"
    using assms(1) ts by simp_all
  have a1: "\<forall>t \<in> set ts1. canvasHeight t = H \<and> \<not> isPresent (hand t)"
    using assms(1) ts by simp
  define d1 where "d1 = d\<lparr>d_y := - 50 + 25 * real (length ts1)\<rparr>"
  have before: "rainTicks ts1 ([d], [], []) = ([d1], [], [])"
    unfolding d1_def using scenario_falling [OF a1 assms(2,3) len(2)] .
  have "real (ticksToWater H) = real (length ts1) + 1"
    using assms(4) ts by simp
  then have "real H - 50 < 25 * (real (length ts1) + 1)"
    using ticksToWater_after [of H] by simp
  then have cross: "d_y d1 + d_speed d1 > real (canvasHeight t) - 100"
    using assms(3) t(1) by (simp add: d1_def)
  show ?thesis
    using renderRain_cross [OF t(2,3) cross]
    by (simp add: ts rainTicks_append before)
qed

lemma ticksToWater_bound: "ticksToWater H \<le> H div 25 + 1"
  unfolding ticksToWater_def by (simp add: div_le_mono)

text \<open>
  C6. The drop loop removes exactly the drops that the move takes below the water line
  and pushes one ripple and three splashes for each of them. A drop at \<open>y = -50\<close> with
  speed 25, on a canvas of height \<open>H\<close> with no hand, is still falling after fewer than
  \<open>ticksToWater H\<close> ticks and after exactly that many it is gone, with one ripple and
  three splashes alive; \<open>ticksToWater H\<close> is at most \<open>H div 25 + 1\<close>.
\<close>

theorem rain_drop_conversion:
  "fst (updateDrops r k wl qs rs) = map fall (filter (\<lambda>q. \<not> d_y q + d_speed q > wl) qs) \<and>
   length (fst (fst (snd (updateDrops r k wl qs rs)))) =
     length (fst rs) + length (crossing wl qs) \<and>
   length (snd (fst (snd (updateDrops r k wl qs rs)))) =
     length (snd rs) + 3 * length (crossing wl qs) \<and>
   ((\<forall>t \<in> set ts. canvasHeight t = H \<and> \<not> isPresent (hand t) \<and>
                   (\<forall>k. 0 \<le> rnd t k \<and> rnd t k < 1)) \<and>
    d_y d = - 50 \<and> d_speed d = 25 \<longrightarrow>
      (length ts < ticksToWater H \<longrightarrow>
         rainTicks ts ([d], [], []) =
           ([d\<lparr>d_y := - 50 + 25 * real (length ts)\<rparr>], [], [])) \<and>
      (length ts = ticksToWater H \<longrightarrow>
         fst (rainTicks ts ([d], [], [])) = [] \<and>
         length (fst (snd (rainTicks ts ([d], [], [])))) = 1 \<and>
         length (snd (snd (rainTicks ts ([d], [], [])))) = 3)) \<and>
   ticksToWater H \<le> H div 25 + 1"
proof (intro conjI impI)
  show "fst (updateDrops r k wl qs rs) =
          map fall (filter (\<lambda>q. \<not> d_y q + d_speed q > wl) qs)"
    by (rule updateDrops_drops)
  show "length (fst (fst (snd (updateDrops r k wl qs rs)))) =
          length (fst rs) + length (crossing wl qs)"
    by (rule updateDrops_ripples)
  show "length (snd (fst (snd (updateDrops r k wl qs rs)))) =
          length (snd rs) + 3 * length (crossing wl qs)"
    by (rule updateDrops_splashes)
  show "ticksToWater H \<le> H div 25 + 1"
    by (rule ticksToWater_bound)
next
  assume a: "(\<forall>t \<in> set ts. canvasHeight t = H \<and> \<not> isPresent (hand t) \<and>
                (\<forall>k. 0 \<le> rnd t k \<and> rnd t k < 1)) \<and> d_y d = - 50 \<and> d_speed d = 25"
    and l: "length ts < ticksToWater H"
  from a have "\<forall>t \<in> set ts. canvasHeight t = H \<and> \<not> isPresent (hand t)"
    by blast
  then show "rainTicks ts ([d], [], []) =
      ([d\<lparr>d_y := - 50 + 25 * real (length ts)\<rparr>], [], [])"
    using a l by (intro scenario_falling) simp_all
next
  assume a: "(\<forall>t \<in> set ts. canvasHeight t = H \<and> \<not> isPresent (hand t) \<and>
                (\<forall>k. 0 \<le> rnd t k \<and> rnd t k < 1)) \<and> d_y d = - 50 \<and> d_speed d = 25"
    and l: "length ts = ticksToWater H"
  then have s: "fst (rainTicks ts ([d], [], [])) = [] \<and>
         length (fst (snd (rainTicks ts ([d], [], [])))) = 1 \<and>
         length (snd (snd (rainTicks ts ([d], [], [])))) = 3"
    by (intro scenario_landing) simp_all
  from s show "fst (rainTicks ts ([d], [], [])) = []" by simp
  from s show "length (fst (snd (rainTicks ts ([d], [], [])))) = 1" by simp
  from s show "length (snd (snd (rainTicks ts ([d], [], [])))) = 3" by simp
qed

theorem rain_drop_conversion_witness:
  "fst (updateDrops (rndConst 0.5) 0 620 [scenarioDrop\<lparr>d_y := 600\<rparr>, scenarioDrop] ([], [])) =
     [scenarioDrop\<lparr>d_y := - 25\<rparr>] \<and>
   length (fst (fst (snd (updateDrops (rndConst 0.5) 0 620
                           [scenarioDrop\<lparr>d_y := 600\<rparr>, scenarioDrop] ([], []))))) = 1 \<and>
   length (snd (fst (snd (updateDrops (rndConst 0.5) 0 620
                           [scenarioDrop\<lparr>d_y := 600\<rparr>, scenarioDrop] ([], []))))) = 3 \<and>
   ticksToWater 720 = 27 \<and>
   rainTicks (replicate 26 (tickWith absentHand 0.5)) ([scenarioDrop], [], []) =
     ([scenarioDrop\<lparr>d_y := 600\<rparr>], [], []) \<and>
   fst (rainTicks (replicate 27 (tickWith absentHand 0.5)) ([scenarioDrop], [], [])) = [] \<and>
   length (fst (snd (rainTicks (replicate 27 (tickWith absentHand 0.5))
                      ([scenarioDrop], [], [])))) = 1 \<and>
   length (snd (snd (rainTicks (replicate 27 (tickWith absentHand 0.5))
                      ([scenarioDrop], [], [])))) = 3"
proof -
  have n: "ticksToWater 720 = 27"
    by (simp add: ticksToWater_def)
  have h: "\<forall>t \<in> set (replicate m (tickWith absentHand 0.5)).
             canvasHeight t = 720 \<and> \<not> isPresent (hand t) \<and> (\<forall>k. 0 \<le> rnd t k \<and> rnd t k < 1)"
    for m
    by (simp add: tickWith_def absentHand_def rndConst_def)
  have d: "d_y scenarioDrop = - 50" "d_speed scenarioDrop = 25"
    by (simp_all add: scenarioDrop_def)
  have c: "crossing 620 [scenarioDrop\<lparr>d_y := 600\<rparr>, scenarioDrop] =
             [scenarioDrop\<lparr>d_y := 600\<rparr>]"
    "filter (\<lambda>q. \<not> d_y q + d_speed q > 620) [scenarioDrop\<lparr>d_y := 600\<rparr>, scenarioDrop] =
       [scenarioDrop]"
    "fall scenarioDrop = scenarioDrop\<lparr>d_y := - 25\<rparr>"
    by (simp_all add: crossing_def scenarioDrop_def fall_def)
  show ?thesis
    using rain_drop_conversion [of "rndConst 0.5" 0 620
        "[scenarioDrop\<lparr>d_y := 600\<rparr>, scenarioDrop]" "([], [])"
        "replicate 26 (tickWith absentHand 0.5)" 720 scenarioDrop]
      rain_drop_conversion [of "rndConst 0.5" 0 620
        "[scenarioDrop\<lparr>d_y := 600\<rparr>, scenarioDrop]" "([], [])"
        "replicate 27 (tickWith absentHand 0.5)" 720 scenarioDrop]
      h [of 26] h [of 27] d n
    by (simp add: c)
qed


section \<open>The particle array belongs to the active simulation\<close>

lemma jellyfishOf_map: "jellyfishOf (map Jelly ps) = Some ps"
  by (induction ps) simp_all

lemma snowflakesOf_map: "snowflakesOf (map Flake ps) = Some ps"
  by (induction ps) simp_all

lemma dropsOf_map: "dropsOf (map Drop ps) = Some ps"
  by (induction ps) simp_all

lemma ownedBy_Nil: "ownedBy m []"
  by (cases m) simp_all

lemma ownParticles_cong:
  "mode st' = mode st \<Longrightarrow> visualizer st' = visualizer st \<Longrightarrow> ownParticles st' = ownParticles st"
  by (simp add: ownParticles_def)

lemma ownParticles_initial: "ownParticles initialApp"
  by (simp add: ownParticles_def initialApp_def initialVisualizer_def)

lemma ownParticles_setMode: "ownParticles st \<Longrightarrow> ownParticles (setMode m st)"
  by (simp add: ownParticles_def setMode_def resetSystems_def ownedBy_Nil)

lemma ownParticles_detectHand:
  assumes "ownParticles st"
  shows "ownParticles (detectHand lms now st)"
proof -
  have "ownParticles (setMode (nextMode (mode st)) st)"
    using assms by (rule ownParticles_setMode)
  then show ?thesis
    using assms by (simp add: detectHand_def Let_def ownParticles_def)
qed

lemma ownParticles_loop:
  assumes "ownParticles st" and "loop f st = Inr st'"
  shows "ownParticles st'"
proof -
  have v: "ownParticles (st\<lparr>lastVideoTime := x\<rparr>)" for x
    using assms(1) by (simp add: ownParticles_def)
  have d: "ownParticles (detectHand lms now (st\<lparr>lastVideoTime := x\<rparr>))" for lms now x
    using v by (rule ownParticles_detectHand)
  have e: "ownParticles (st\<lparr>lastVideoTime := x,
      handData := (handData st)\<lparr>isPresent := False, landmarks := None\<rparr>,
      hoveredTab := None\<rparr>)" for x
    using assms(1) by (simp add: ownParticles_def)
  show ?thesis
    using assms d e
    by (auto simp: loop_def Let_def split: if_splits list.splits)
qed

lemma render_defined:
  assumes "ownParticles st"
  shows "\<exists>st'. render t st = Some st' \<and> ownParticles st' \<and> mode st' = mode st"
  using assms
  by (cases "mode st")
    (auto simp: render_def ownParticles_def Let_def jellyfishOf_map snowflakesOf_map dropsOf_map)

end
